theory Spec2Isabelle
  imports Complex_Main
begin

section \<open>The Model reference of \<open>zenml/model/model.py\<close>\<close>

text \<open>
  The class \<open>Model\<close> names a model and, optionally, one of its versions. Resolving
  the reference (\<open>_get_or_create_model_version\<close>) talks to the Model Control Plane
  through the client and the store, mutates the reference and writes to the log. The
  embedding makes all of that explicit: the reference is a record, the store is a
  family of functions over a world state, every raise is an \<open>Inl\<close>, and every store
  call, log line and sleep is appended to a trace.

  A Python string is modelled by the list of its code points, as a \<open>string\<close>: a
  \<open>char\<close> is a code point below 256, so the strings covered are those of the Latin-1
  range. On that range the two string methods the code uses, \<open>isnumeric\<close> and
  \<open>lower\<close>, are modelled as Python computes them.
\<close>

subsection \<open>Python values\<close>

datatype uuid = UUID nat

text \<open>
  Modelled from the spec: the enum \<open>ModelStages\<close> is imported from \<open>zenml.enums\<close>,
  which is not part of the sources at hand. The spec speaks of "known stage enum
  values" and names \<open>staging\<close> and \<open>production\<close>; the members below are those of the
  library. It is a string enum: a member is an instance of \<open>str\<close>, compares equal to
  its value, and \<open>str\<close> of a member is its value.
\<close>

datatype ModelStages = NONE | STAGING | PRODUCTION | ARCHIVED | LATEST

fun stage_value :: "ModelStages \<Rightarrow> string" where
  "stage_value NONE = ''none''"
| "stage_value STAGING = ''staging''"
| "stage_value PRODUCTION = ''production''"
| "stage_value ARCHIVED = ''archived''"
| "stage_value LATEST = ''latest''"

text \<open>\<open>ModelStages.values()\<close> and \<open>[stage.value for stage in ModelStages]\<close>.\<close>

definition ModelStages_values :: "string list" where
  "ModelStages_values = map stage_value [NONE, STAGING, PRODUCTION, ARCHIVED, LATEST]"

text \<open>The field \<open>version: Optional[Union[ModelStages, int, str]]\<close>.\<close>

datatype version = VStage ModelStages | VInt int | VStr string

definition digits :: string where
  "digits = ''0123456789''"

fun str_nat :: "nat \<Rightarrow> string" where
  "str_nat n = (if n < 10 then [digits ! n] else str_nat (n div 10) @ [digits ! (n mod 10)])"

declare str_nat.simps [simp del]

definition str_int :: "int \<Rightarrow> string" where
  "str_int i = (if i < 0 then CHR ''-'' # str_nat (nat (- i)) else str_nat (nat i))"

text \<open>\<open>str(x)\<close> for a value of the version field; \<open>str(None)\<close> is \<open>'None'\<close>.\<close>

fun py_str :: "version option \<Rightarrow> string" where
  "py_str None = ''None''"
| "py_str (Some (VStage g)) = stage_value g"
| "py_str (Some (VInt n)) = str_int n"
| "py_str (Some (VStr s)) = s"

text \<open>Truthiness of the version field, as \<open>if self.version\<close> tests it.\<close>

fun truthy :: "version option \<Rightarrow> bool" where
  "truthy None = False"
| "truthy (Some (VStage g)) = (stage_value g \<noteq> [])"
| "truthy (Some (VInt n)) = (n \<noteq> 0)"
| "truthy (Some (VStr s)) = (s \<noteq> [])"

text \<open>
  \<open>s.isnumeric()\<close>: non-empty and every character numeric. The numeric characters
  below 256 are the ten digits, the superscripts two, three and one (\<open>0xB2\<close>, \<open>0xB3\<close>,
  \<open>0xB9\<close>) and the fractions a quarter, a half and three quarters (\<open>0xBC\<close>, \<open>0xBD\<close>,
  \<open>0xBE\<close>).
\<close>

definition numeric_chars :: string where
  "numeric_chars = digits @ [CHR 0xB2, CHR 0xB3, CHR 0xB9, CHR 0xBC, CHR 0xBD, CHR 0xBE]"

definition isnumeric :: "string \<Rightarrow> bool" where
  "isnumeric s = (s \<noteq> [] \<and> list_all (\<lambda>c. c \<in> set numeric_chars) s)"

text \<open>
  \<open>s.lower()\<close>: below 256 the characters with a lowercase form of their own are the
  letters \<open>A\<close> to \<open>Z\<close> and the letters \<open>0xC0\<close> to \<open>0xDE\<close> without the multiplication sign
  \<open>0xD7\<close>; the lowercase form is 32 code points up.
\<close>

definition upper_chars :: string where
  "upper_chars = ''ABCDEFGHIJKLMNOPQRSTUVWXYZ'' @
     [CHR 0xC0, CHR 0xC1, CHR 0xC2, CHR 0xC3, CHR 0xC4, CHR 0xC5, CHR 0xC6, CHR 0xC7,
      CHR 0xC8, CHR 0xC9, CHR 0xCA, CHR 0xCB, CHR 0xCC, CHR 0xCD, CHR 0xCE, CHR 0xCF,
      CHR 0xD0, CHR 0xD1, CHR 0xD2, CHR 0xD3, CHR 0xD4, CHR 0xD5, CHR 0xD6,
      CHR 0xD8, CHR 0xD9, CHR 0xDA, CHR 0xDB, CHR 0xDC, CHR 0xDD, CHR 0xDE]"

definition lower_chars :: string where
  "lower_chars = ''abcdefghijklmnopqrstuvwxyz'' @
     [CHR 0xE0, CHR 0xE1, CHR 0xE2, CHR 0xE3, CHR 0xE4, CHR 0xE5, CHR 0xE6, CHR 0xE7,
      CHR 0xE8, CHR 0xE9, CHR 0xEA, CHR 0xEB, CHR 0xEC, CHR 0xED, CHR 0xEE, CHR 0xEF,
      CHR 0xF0, CHR 0xF1, CHR 0xF2, CHR 0xF3, CHR 0xF4, CHR 0xF5, CHR 0xF6,
      CHR 0xF8, CHR 0xF9, CHR 0xFA, CHR 0xFB, CHR 0xFC, CHR 0xFD, CHR 0xFE]"

definition lower_char :: "char \<Rightarrow> char" where
  "lower_char c = (case map_of (zip upper_chars lower_chars) c of None \<Rightarrow> c | Some l \<Rightarrow> l)"

definition lower :: "string \<Rightarrow> string" where
  "lower s = map lower_char s"

text \<open>\<open>version in [stage.value for stage in ModelStages]\<close>: list membership by \<open>==\<close>.\<close>

fun in_stage_values :: "version option \<Rightarrow> bool" where
  "in_stage_values None = False"
| "in_stage_values (Some (VStage g)) = True"
| "in_stage_values (Some (VInt n)) = False"
| "in_stage_values (Some (VStr s)) = (s \<in> set ModelStages_values)"

subsection \<open>The reference and the entities of the store\<close>

text \<open>
  The fields of \<open>Model\<close>. The private attributes \<open>_model_id\<close>, \<open>_number\<close> and
  \<open>_created_model_version\<close> cannot keep a leading underscore and carry the prefix \<open>priv\<close> instead.
\<close>

record Model =
  name :: string
  license :: "string option"
  description :: "string option"
  audience :: "string option"
  use_cases :: "string option"
  limitations :: "string option"
  trade_offs :: "string option"
  ethics :: "string option"
  tags :: "string list option"
  version :: "version option"
  save_models_to_registry :: bool
  model_version_id :: "uuid option"
  suppress_class_validation_warnings :: bool
  was_created_in_this_run :: bool
  priv_model_id :: "uuid option"
  priv_number :: "int option"
  priv_created_model_version :: bool

text \<open>
  Modelled from the spec: the response classes \<open>ModelResponse\<close> and
  \<open>ModelVersionResponse\<close> of \<open>zenml.models\<close> are not part of the sources at hand.
  They are the spec's ModelEntity and ModelVersionEntity, with the fields this module
  reads: the id and name of a model; the id, optional name, number, model, tags and
  metadata of a version. A version's description lives in its metadata section,
  which the module tests for before it reads the description.
\<close>

record ModelResponse =
  m_id :: uuid
  m_name :: string

record ModelVersionResponseMetadata =
  md_description :: "string option"

record ModelVersionResponse =
  mv_id :: uuid
  mv_name :: "string option"
  mv_number :: int
  mv_model :: ModelResponse
  mv_tags :: "string list"
  mv_metadata :: "ModelVersionResponseMetadata option"

text \<open>
  Modelled from the spec: the request classes \<open>ModelRequest\<close> and
  \<open>ModelVersionRequest\<close> of \<open>zenml.models\<close> are not part of the sources at hand either.
  They are records of the keyword arguments the module passes, the spec's creation
  \<open>spec\<close>; their validation is taken to succeed.
\<close>

record ModelRequest =
  rq_name :: string
  rq_license :: "string option"
  rq_description :: "string option"
  rq_audience :: "string option"
  rq_use_cases :: "string option"
  rq_limitations :: "string option"
  rq_trade_offs :: "string option"
  rq_ethics :: "string option"
  rq_user :: uuid
  rq_workspace :: uuid
  rq_save_models_to_registry :: bool

record ModelVersionRequest =
  vrq_user :: uuid
  vrq_workspace :: uuid
  vrq_name :: "string option"
  vrq_description :: "string option"
  vrq_model :: uuid
  vrq_tags :: "string list option"

subsection \<open>Exceptions, store calls and the trace\<close>

text \<open>
  The messages of the \<open>RuntimeError\<close>s the resolver raises keep the values the
  f-strings interpolate: the version, the model name and the number of retries.
\<close>

datatype runtime_error =
    ReservedStageName string string
  | ReservedNumericName string string
  | CreationRetriesExhausted string string nat
  | OtherRuntimeError string

text \<open>
  \<open>OtherException\<close> stands for every exception that is no \<open>KeyError\<close>, no
  \<open>EntityExistsError\<close> and no \<open>RuntimeError\<close>.
\<close>

datatype exn =
    KeyError
  | EntityExistsError
  | RuntimeError runtime_error
  | ValueError string
  | UnboundLocalError
  | OtherException string

text \<open>
  The second argument of \<open>Client.get_model_version\<close> is the version's id or the
  reference's version field.
\<close>

datatype mv_key = KeyId uuid | KeyVersion "version option"

datatype call =
    GetModel string
  | CreateModel ModelRequest
  | GetModelVersion "string option" mv_key "bool option"
  | CreateModelVersion ModelVersionRequest

text \<open>
  The dict \<open>difference\<close> of \<open>_get_model_version\<close>: a key that is absent is \<open>None\<close>.
  The lists built from set differences have no specified order and are kept as sets.
\<close>

record difference =
  diff_description :: "(string \<times> string option) option"
  diff_tags_added :: "string set option"
  diff_tags_removed :: "string set option"

datatype level = DEBUG | INFO | WARNING

datatype log_msg =
    MatchesModelStages "version option"
  | VersionIsNumeric "version option"
  | NewModelCreatedImplicitly string
  | ConfigurationDoesNotMatch string "version option" difference
  | RetryingIn string rat
  | CreatedNewModelVersion "version option" string

text \<open>
  An event of the trace: a store call with the exception it raised (\<open>None\<close> when it
  returned), a log record, or a \<open>time.sleep\<close>. Delays are exact rationals.
\<close>

datatype event =
    Call call "exn option"
  | Log level log_msg
  | Sleep rat

fun is_create_call :: "event \<Rightarrow> bool" where
  "is_create_call (Call (CreateModelVersion r) x) = True"
| "is_create_call e = False"

fun is_creation :: "event \<Rightarrow> bool" where
  "is_creation (Call (CreateModelVersion r) None) = True"
| "is_creation e = False"

fun is_store_call :: "event \<Rightarrow> bool" where
  "is_store_call (Call c x) = True"
| "is_store_call e = False"

fun is_sleep :: "event \<Rightarrow> bool" where
  "is_sleep (Sleep d) = True"
| "is_sleep e = False"

fun is_warning :: "event \<Rightarrow> bool" where
  "is_warning (Log WARNING m) = True"
| "is_warning e = False"


text \<open>
  The step context of \<open>get_step_context()\<close>: the model of the run's configuration and
  the models of the configurations of the run's steps, in the order of the dict.
\<close>

record StepContext =
  pipeline_run_config_model :: "Model option"
  pipeline_run_steps :: "(string \<times> Model option) list"

text \<open>
  The collaborators, none of which is part of the sources at hand: the store and the
  client as functions over a world state \<open>'w\<close> that return a response or raise,
  \<open>get_step_context\<close> (\<open>None\<close>: it raises \<open>RuntimeError\<close>, there is no step),
  \<open>format_name_template\<close> (from the version it is given to the value it returns, or
  an exception), the ids of the active user and workspace, and the constant
  \<open>MAX_RETRIES_FOR_VERSIONED_ENTITY_CREATION\<close> of \<open>zenml.constants\<close>.
\<close>

record 'w env =
  zen_store_get_model :: "string \<Rightarrow> 'w \<Rightarrow> (exn + ModelResponse) \<times> 'w"
  zen_store_create_model :: "ModelRequest \<Rightarrow> 'w \<Rightarrow> (exn + ModelResponse) \<times> 'w"
  client_get_model_version ::
    "string option \<Rightarrow> mv_key \<Rightarrow> bool option \<Rightarrow> 'w \<Rightarrow> (exn + ModelVersionResponse) \<times> 'w"
  zen_store_create_model_version ::
    "ModelVersionRequest \<Rightarrow> 'w \<Rightarrow> (exn + ModelVersionResponse) \<times> 'w"
  get_step_context :: "StepContext option"
  format_name_template :: "version \<Rightarrow> exn + version"
  active_user_id :: uuid
  active_workspace_id :: uuid
  MAX_RETRIES_FOR_VERSIONED_ENTITY_CREATION :: nat

text \<open>The state a resolution runs in: the reference, the world and the trace so far.\<close>

record 'w state =
  self :: Model
  world :: 'w
  trace :: "event list"

definition raised :: "(exn + 'a) \<Rightarrow> exn option" where
  "raised r = (case r of Inl e \<Rightarrow> Some e | Inr x \<Rightarrow> None)"

definition store_call ::
  "call \<Rightarrow> ('w \<Rightarrow> (exn + 'a) \<times> 'w) \<Rightarrow> 'w state \<Rightarrow> (exn + 'a) \<times> 'w state" where
  "store_call c f s =
     (case f (world s) of
        (r, w) \<Rightarrow> (r, s\<lparr>world := w, trace := trace s @ [Call c (raised r)]\<rparr>))"

definition logger :: "level \<Rightarrow> log_msg \<Rightarrow> 'w state \<Rightarrow> 'w state" where
  "logger l m s = s\<lparr>trace := trace s @ [Log l m]\<rparr>"

definition time_sleep :: "rat \<Rightarrow> 'w state \<Rightarrow> 'w state" where
  "time_sleep d s = s\<lparr>trace := trace s @ [Sleep d]\<rparr>"

subsection \<open>The lazy version\<close>

text \<open>The property \<open>_lazy_version\<close>; falling off the end of the body returns \<open>None\<close>.\<close>

definition lazy_version :: "Model \<Rightarrow> string option" where
  "lazy_version m =
     (case priv_number m of
        Some n \<Rightarrow> Some (str_int n)
      | None \<Rightarrow>
          (case version m of
             Some v \<Rightarrow>
               (case v of
                  VStage g \<Rightarrow> Some (stage_value g)
                | _ \<Rightarrow> Some (py_str (Some v)))
           | None \<Rightarrow> None))"

subsection \<open>The validator\<close>

text \<open>
  The dict \<open>data\<close> that \<open>_root_validator\<close> receives, at the three keys it reads, each
  with the type of its field; a key that is absent is \<open>None\<close>.
\<close>

record data =
  data_suppress_class_validation_warnings :: "bool option"
  data_model_version_id :: "uuid option"
  data_version :: "version option"

text \<open>
  \<open>_root_validator\<close> raises \<open>ValueError\<close> or returns the dict with the warnings
  suppressed, together with the log records it emitted.
\<close>

definition root_validator :: "data \<Rightarrow> exn + data \<times> event list" where
  "root_validator d =
     (let suppress =
            (case data_suppress_class_validation_warnings d of None \<Rightarrow> False | Some b \<Rightarrow> b)
      in if \<not> suppress \<and> data_model_version_id d \<noteq> None
         then Inl (ValueError ''`model_version_id` field is for internal use only'')
         else
           (let v = data_version d;
                log1 = (if in_stage_values v \<and> \<not> suppress
                        then [Log INFO (MatchesModelStages v)] else []);
                log2 = (if isnumeric (py_str v) \<and> \<not> suppress
                        then [Log INFO (VersionIsNumeric v)] else [])
            in Inr (d\<lparr>data_suppress_class_validation_warnings := Some True\<rparr>, log1 @ log2)))"

subsection \<open>The parent model\<close>

definition model_request :: "'w env \<Rightarrow> Model \<Rightarrow> ModelRequest" where
  "model_request env m =
     \<lparr>rq_name = name m, rq_license = license m, rq_description = description m,
      rq_audience = audience m, rq_use_cases = use_cases m, rq_limitations = limitations m,
      rq_trade_offs = trade_offs m, rq_ethics = ethics m, rq_user = active_user_id env,
      rq_workspace = active_workspace_id env,
      rq_save_models_to_registry = save_models_to_registry m\<rparr>"

text \<open>The last two lines of \<open>_get_or_create_model\<close>.\<close>

definition return_model :: "ModelResponse \<Rightarrow> 'w state \<Rightarrow> (exn + ModelResponse) \<times> 'w state" where
  "return_model model s = (Inr model, s\<lparr>self := (self s)\<lparr>priv_model_id := Some (m_id model)\<rparr>\<rparr>)"

definition get_or_create_model :: "'w env \<Rightarrow> 'w state \<Rightarrow> (exn + ModelResponse) \<times> 'w state" where
  "get_or_create_model env s =
     (case model_version_id (self s) of
        Some vid \<Rightarrow>
          (case store_call (GetModelVersion None (KeyId vid) None)
                  (client_get_model_version env None (KeyId vid) None) s of
             (Inl e, s1) \<Rightarrow> (Inl e, s1)
           | (Inr mv, s1) \<Rightarrow> return_model (mv_model mv) s1)
      | None \<Rightarrow>
          (case store_call (GetModel (name (self s)))
                  (zen_store_get_model env (name (self s))) s of
             (Inr model, s1) \<Rightarrow> return_model model s1
           | (Inl e, s1) \<Rightarrow>
               if e = KeyError then
                 (case store_call (CreateModel (model_request env (self s1)))
                         (zen_store_create_model env (model_request env (self s1))) s1 of
                    (Inr model, s2) \<Rightarrow>
                      return_model model
                        (logger INFO (NewModelCreatedImplicitly (name (self s2))) s2)
                  | (Inl e2, s2) \<Rightarrow>
                      if e2 = EntityExistsError then
                        (case store_call (GetModel (name (self s2)))
                                (zen_store_get_model env (name (self s2))) s2 of
                           (Inr model, s3) \<Rightarrow> return_model model s3
                         | (Inl e3, s3) \<Rightarrow> (Inl e3, s3))
                      else (Inl e2, s2))
               else (Inl e, s1)))"

subsection \<open>Fetching a version and comparing it with the configuration\<close>

definition no_difference :: difference where
  "no_difference = \<lparr>diff_description = None, diff_tags_added = None, diff_tags_removed = None\<rparr>"

definition compute_difference :: "Model \<Rightarrow> ModelVersionResponse \<Rightarrow> difference" where
  "compute_difference m mv =
     (let d1 =
            (case mv_metadata mv of
               None \<Rightarrow> no_difference
             | Some md \<Rightarrow>
                 (case description m of
                    None \<Rightarrow> no_difference
                  | Some c \<Rightarrow>
                      if c \<noteq> [] \<and> md_description md \<noteq> Some c
                      then no_difference\<lparr>diff_description := Some (c, md_description md)\<rparr>
                      else no_difference))
      in case tags m of
           None \<Rightarrow> d1
         | Some ts \<Rightarrow>
             if ts \<noteq> [] \<and> set (mv_tags mv) \<noteq> set ts
             then d1\<lparr>diff_tags_added := Some (set ts - set (mv_tags mv)),
                     diff_tags_removed := Some (set (mv_tags mv) - set ts)\<rparr>
             else d1)"

text \<open>From \<open>difference: Dict[str, Any] = {}\<close> to \<open>return mv\<close>.\<close>

definition warn_difference ::
  "ModelVersionResponse \<Rightarrow> 'w state \<Rightarrow> (exn + ModelVersionResponse) \<times> 'w state" where
  "warn_difference mv s =
     (let d = compute_difference (self s) mv
      in (Inr mv,
          if d = no_difference then s
          else logger WARNING (ConfigurationDoesNotMatch (name (self s)) (version (self s)) d) s))"

definition get_model_version ::
  "'w env \<Rightarrow> bool \<Rightarrow> 'w state \<Rightarrow> (exn + ModelVersionResponse) \<times> 'w state" where
  "get_model_version env hydrate s =
     (case model_version_id (self s) of
        Some vid \<Rightarrow>
          (case store_call (GetModelVersion None (KeyId vid) (Some hydrate))
                  (client_get_model_version env None (KeyId vid) (Some hydrate)) s of
             (Inl e, s1) \<Rightarrow> (Inl e, s1)
           | (Inr mv, s1) \<Rightarrow> warn_difference mv s1)
      | None \<Rightarrow>
          (case store_call
                  (GetModelVersion (Some (name (self s))) (KeyVersion (version (self s)))
                     (Some hydrate))
                  (client_get_model_version env (Some (name (self s)))
                     (KeyVersion (version (self s))) (Some hydrate)) s of
             (Inl e, s1) \<Rightarrow> (Inl e, s1)
           | (Inr mv, s1) \<Rightarrow>
               warn_difference mv
                 (s1\<lparr>self := (self s1)\<lparr>model_version_id := Some (mv_id mv)\<rparr>\<rparr>)))"

subsection \<open>Reuse of a version created earlier in the run\<close>

text \<open>
  The condition under which the model of a configuration is taken over:
  \<open>mv and mv.was_created_in_this_run and mv.name == self.name and mv.version is not None\<close>.
\<close>

definition created_in_run_for :: "string \<Rightarrow> Model option \<Rightarrow> bool" where
  "created_in_run_for nm mo =
     (case mo of
        None \<Rightarrow> False
      | Some mv \<Rightarrow> was_created_in_this_run mv \<and> name mv = nm \<and> version mv \<noteq> None)"

text \<open>
  The search of the step context: the model of the run's configuration if it
  qualifies, otherwise the first model among the steps' configurations that does.
\<close>

definition first_created :: "StepContext \<Rightarrow> string \<Rightarrow> Model option" where
  "first_created context nm =
     (if created_in_run_for nm (pipeline_run_config_model context)
      then pipeline_run_config_model context
      else
        (case find (created_in_run_for nm) (map snd (pipeline_run_steps context)) of
           None \<Rightarrow> None
         | Some step_mv \<Rightarrow> step_mv))"

text \<open>The two assignments both branches of the search make on a match.\<close>

definition take_over :: "Model \<Rightarrow> 'w state \<Rightarrow> 'w state" where
  "take_over mv s =
     s\<lparr>self := (self s)\<lparr>version := version mv, model_version_id := model_version_id mv\<rparr>\<rparr>"

definition reuse_from_context :: "StepContext \<Rightarrow> 'w state \<Rightarrow> 'w state" where
  "reuse_from_context context s =
     (case first_created context (name (self s)) of
        None \<Rightarrow> s
      | Some mv \<Rightarrow> take_over mv s)"

text \<open>
  The body of the outer \<open>try\<close>: the search when there is no version and a step context,
  then the fetch, or \<open>raise KeyError\<close> when there is nothing to fetch by.
\<close>

definition try_fetch :: "'w env \<Rightarrow> 'w state \<Rightarrow> (exn + ModelVersionResponse) \<times> 'w state" where
  "try_fetch env s =
     (let s1 =
            (if \<not> truthy (version (self s)) then
               (case get_step_context env of
                  None \<Rightarrow> s
                | Some context \<Rightarrow> reuse_from_context context s)
             else s)
      in if truthy (version (self s1)) \<or> model_version_id (self s1) \<noteq> None
         then get_model_version env True s1
         else (Inl KeyError, s1))"

subsection \<open>Creating a version\<close>

text \<open>The delay \<open>0.2 * 1.5**i\<close>.\<close>

definition backoff :: "nat \<Rightarrow> rat" where
  "backoff i = (2 / 10) * (15 / 10) ^ i"

text \<open>\<open>self.version if self.version else 'new'\<close>, as the error message prints it.\<close>

definition version_or_new :: "version option \<Rightarrow> string" where
  "version_or_new v = (if truthy v then py_str v else ''new'')"

text \<open>
  The loop \<open>for i in range(MAX_RETRIES_FOR_VERSIONED_ENTITY_CREATION)\<close> over the indices
  still to come, with \<open>retries_made\<close>. \<open>Inr None\<close>: the range ran out with no \<open>break\<close>
  and \<open>model_version\<close> was never bound. The test \<open>i == MAX - 1\<close> is written \<open>i + 1 = MAX\<close>.
\<close>

fun create_loop ::
  "'w env \<Rightarrow> ModelVersionRequest \<Rightarrow> nat list \<Rightarrow> nat \<Rightarrow> 'w state
   \<Rightarrow> (exn + ModelVersionResponse option) \<times> 'w state" where
  "create_loop env rq [] retries_made s = (Inr None, s)"
| "create_loop env rq (i # rest) retries_made s =
     (case store_call (CreateModelVersion rq) (zen_store_create_model_version env rq) s of
        (Inr mv, s1) \<Rightarrow> (Inr (Some mv), s1)
      | (Inl e, s1) \<Rightarrow>
          if e = EntityExistsError then
            (if i + 1 = MAX_RETRIES_FOR_VERSIONED_ENTITY_CREATION env
             then (Inl (RuntimeError
                          (CreationRetriesExhausted (version_or_new (version (self s1)))
                             (name (self s1)) retries_made)), s1)
             else create_loop env rq rest (retries_made + 1)
                    (time_sleep (backoff i)
                       (logger DEBUG (RetryingIn (name (self s1)) (backoff i)) s1)))
          else (Inl e, s1))"

text \<open>The handler \<open>except KeyError\<close> of the outer \<open>try\<close>.\<close>

definition create_on_miss ::
  "'w env \<Rightarrow> ModelVersionRequest \<Rightarrow> 'w state \<Rightarrow> (exn + ModelVersionResponse) \<times> 'w state" where
  "create_on_miss env rq s =
     (let v = version (self s)
      in if truthy v \<and> lower (py_str v) \<in> set ModelStages_values
         then (Inl (RuntimeError (ReservedStageName (py_str v) (name (self s)))), s)
         else if isnumeric (py_str v)
         then (Inl (RuntimeError (ReservedNumericName (py_str v) (name (self s)))), s)
         else
           (case create_loop env rq [0..<MAX_RETRIES_FOR_VERSIONED_ENTITY_CREATION env] 0 s of
              (Inl e, s1) \<Rightarrow> (Inl e, s1)
            | (Inr None, s1) \<Rightarrow> (Inl UnboundLocalError, s1)
            | (Inr (Some model_version), s1) \<Rightarrow>
                (Inr model_version,
                 logger INFO
                   (CreatedNewModelVersion (map_option VStr (mv_name model_version))
                      (name (self s1)))
                   (s1\<lparr>self := (self s1)
                          \<lparr>version := map_option VStr (mv_name model_version),
                           was_created_in_this_run := True,
                           priv_created_model_version := True\<rparr>\<rparr>))))"

subsection \<open>The resolver\<close>

text \<open>
  \<open>if isinstance(self.version, str): self.version = format_name_template(self.version)\<close>.
  A stage is a string too. The function is handed the version as it is, and what it
  returns becomes the version.
\<close>

definition format_version :: "'w env \<Rightarrow> 'w state \<Rightarrow> exn + 'w state" where
  "format_version env s =
     (case version (self s) of
        Some (VStr t) \<Rightarrow>
          (case format_name_template env (VStr t) of
             Inl e \<Rightarrow> Inl e
           | Inr u \<Rightarrow> Inr (s\<lparr>self := (self s)\<lparr>version := Some u\<rparr>\<rparr>))
      | Some (VStage g) \<Rightarrow>
          (case format_name_template env (VStage g) of
             Inl e \<Rightarrow> Inl e
           | Inr u \<Rightarrow> Inr (s\<lparr>self := (self s)\<lparr>version := Some u\<rparr>\<rparr>))
      | _ \<Rightarrow> Inr s)"

definition model_version_request :: "'w env \<Rightarrow> ModelResponse \<Rightarrow> Model \<Rightarrow> ModelVersionRequest" where
  "model_version_request env model m =
     \<lparr>vrq_user = active_user_id env, vrq_workspace = active_workspace_id env,
      vrq_name = (if truthy (version m) then Some (py_str (version m)) else None),
      vrq_description = description m, vrq_model = m_id model, vrq_tags = tags m\<rparr>"

text \<open>The three assignments before \<open>return model_version\<close>.\<close>

definition cache_resolved :: "ModelVersionResponse \<Rightarrow> 'w state \<Rightarrow> 'w state" where
  "cache_resolved model_version s =
     s\<lparr>self := (self s)
          \<lparr>model_version_id := Some (mv_id model_version),
           priv_model_id := Some (m_id (mv_model model_version)),
           priv_number := Some (mv_number model_version)\<rparr>\<rparr>"

text \<open>The outer \<open>try\<close> with its handler.\<close>

definition fetch_or_create ::
  "'w env \<Rightarrow> ModelVersionRequest \<Rightarrow> 'w state \<Rightarrow> (exn + ModelVersionResponse) \<times> 'w state" where
  "fetch_or_create env rq s =
     (case try_fetch env s of
        (Inr model_version, s1) \<Rightarrow> (Inr model_version, s1)
      | (Inl e, s1) \<Rightarrow> if e = KeyError then create_on_miss env rq s1 else (Inl e, s1))"

text \<open>\<open>_get_or_create_model_version\<close>; its argument \<open>hydrate\<close> is not used by the body.\<close>

definition get_or_create_model_version ::
  "'w env \<Rightarrow> bool \<Rightarrow> 'w state \<Rightarrow> (exn + ModelVersionResponse) \<times> 'w state" where
  "get_or_create_model_version env hydrate s =
     (case get_or_create_model env s of
        (Inl e, s1) \<Rightarrow> (Inl e, s1)
      | (Inr model, s1) \<Rightarrow>
          (case format_version env s1 of
             Inl e \<Rightarrow> (Inl e, s1)
           | Inr s2 \<Rightarrow>
               (case fetch_or_create env (model_version_request env model (self s2)) s2 of
                  (Inl e, s3) \<Rightarrow> (Inl e, s3)
                | (Inr model_version, s3) \<Rightarrow>
                    (Inr model_version, cache_resolved model_version s3))))"

subsection \<open>Reading a trace\<close>

text \<open>The events a step from \<open>s\<close> to \<open>s'\<close> appended, and the delays slept in a trace.\<close>

definition new_events :: "'w state \<Rightarrow> 'w state \<Rightarrow> event list" where
  "new_events s s' = drop (length (trace s)) (trace s')"

fun sleeps :: "event list \<Rightarrow> rat list" where
  "sleeps [] = []"
| "sleeps (Sleep d # es) = d # sleeps es"
| "sleeps (e # es) = sleeps es"

subsection \<open>An example store\<close>

text \<open>
  A reference to the model \<open>churn\<close> with no version, a model and a version as the store
  returns them, and a store that answers by script: its world is the number of store
  calls made so far, and each kind of call is answered by a function given for it.
  Outside a step \<open>get_step_context\<close> raises; a version is formatted to itself.
\<close>

definition churn :: Model where
  "churn =
     \<lparr>name = ''churn'', license = None, description = None, audience = None,
      use_cases = None, limitations = None, trade_offs = None, ethics = None, tags = None,
      version = None, save_models_to_registry = True, model_version_id = None,
      suppress_class_validation_warnings = True, was_created_in_this_run = False,
      priv_model_id = None, priv_number = None, priv_created_model_version = False\<rparr>"

definition churn_model :: ModelResponse where
  "churn_model = \<lparr>m_id = UUID 1, m_name = ''churn''\<rparr>"

definition version_one :: ModelVersionResponse where
  "version_one =
     \<lparr>mv_id = UUID 7, mv_name = Some ''1'', mv_number = 1, mv_model = churn_model,
      mv_tags = [''a'', ''b''],
      mv_metadata = Some \<lparr>md_description = Some ''first version''\<rparr>\<rparr>"

definition scripted_env ::
  "(nat \<Rightarrow> exn + ModelResponse) \<Rightarrow> (nat \<Rightarrow> exn + ModelResponse)
   \<Rightarrow> (nat \<Rightarrow> exn + ModelVersionResponse) \<Rightarrow> (nat \<Rightarrow> exn + ModelVersionResponse)
   \<Rightarrow> StepContext option \<Rightarrow> nat \<Rightarrow> nat env" where
  "scripted_env get_m create_m get_mv create_mv context n =
     \<lparr>zen_store_get_model = (\<lambda>nm w. (get_m w, Suc w)),
      zen_store_create_model = (\<lambda>rq w. (create_m w, Suc w)),
      client_get_model_version = (\<lambda>nm k h w. (get_mv w, Suc w)),
      zen_store_create_model_version = (\<lambda>rq w. (create_mv w, Suc w)),
      get_step_context = context,
      format_name_template = Inr,
      active_user_id = UUID 100,
      active_workspace_id = UUID 200,
      MAX_RETRIES_FOR_VERSIONED_ENTITY_CREATION = n\<rparr>"

definition start :: "Model \<Rightarrow> nat state" where
  "start m = \<lparr>self = m, world = 0, trace = []\<rparr>"

section \<open>Properties\<close>

subsection \<open>Strings of numbers and stages\<close>

lemma digits_nth_mem: "k < 10 \<Longrightarrow> digits ! k \<in> set digits"
proof -
  assume "k < 10"
  then have "k < length digits" by (simp add: digits_def)
  then show ?thesis by (rule nth_mem)
qed

lemma str_nat_digits: "list_all (\<lambda>c. c \<in> set digits) (str_nat n)"
proof (induction n rule: str_nat.induct)
  case (1 n)
  show ?case
  proof (cases "n < 10")
    case True
    then show ?thesis using digits_nth_mem [of n] by (subst str_nat.simps) simp
  next
    case False
    then show ?thesis using 1 digits_nth_mem [of "n mod 10"] by (subst str_nat.simps) simp
  qed
qed

lemma str_nat_nonempty: "str_nat n \<noteq> []"
  by (subst str_nat.simps) simp

lemma digit_numeric: "c \<in> set digits \<Longrightarrow> c \<in> set numeric_chars"
  by (simp add: numeric_chars_def)

lemma str_nat_numeric: "list_all (\<lambda>c. c \<in> set numeric_chars) (str_nat n)"
  using str_nat_digits [of n] by (auto simp: list_all_iff digit_numeric)

lemma minus_not_numeric: "CHR ''-'' \<notin> set numeric_chars"
  by (simp add: numeric_chars_def digits_def)

lemma isnumeric_str_int: "isnumeric (str_int i) = (0 \<le> i)"
  by (simp add: isnumeric_def str_int_def str_nat_numeric str_nat_nonempty minus_not_numeric)

lemma lower_stage_value: "lower (stage_value g) = stage_value g"
  by (cases g) (simp_all add: lower_def lower_char_def upper_chars_def lower_chars_def)

lemma stage_value_in_values: "stage_value g \<in> set ModelStages_values"
  by (cases g) (simp_all add: ModelStages_values_def)

lemma stage_value_not_numeric: "\<not> isnumeric (stage_value g)"
  by (cases g) (simp_all add: isnumeric_def numeric_chars_def digits_def)

lemma stage_value_nonempty: "stage_value g \<noteq> []"
  by (cases g) simp_all

lemma values_not_numeric: "t \<in> set ModelStages_values \<Longrightarrow> \<not> isnumeric t"
  by (auto simp: ModelStages_values_def isnumeric_def numeric_chars_def digits_def)

subsection \<open>What each step does to the reference and to the trace\<close>

lemma filter_create_imp_creation:
  "filter is_create_call t = [] \<Longrightarrow> filter is_creation t = []"
proof (induction t)
  case Nil
  then show ?case by simp
next
  case (Cons e t)
  then show ?case
    by (cases e rule: is_creation.cases) (auto split: if_splits)
qed

lemma get_or_create_model_trace:
  "get_or_create_model env s = (r, s') \<Longrightarrow>
     \<exists>c x t. trace s' = trace s @ Call c x # t
        \<and> \<not> is_create_call (Call c x)
        \<and> filter is_create_call t = [] \<and> filter is_warning t = [] \<and> filter is_sleep t = []"
  unfolding get_or_create_model_def store_call_def return_model_def logger_def
  by (auto split: option.splits prod.splits sum.splits if_splits)

lemma get_model_version_trace:
  "get_model_version env h s = (r, s') \<Longrightarrow>
     \<exists>t. trace s' = trace s @ t
        \<and> filter is_create_call t = [] \<and> filter is_sleep t = []
        \<and> (raised r \<noteq> None \<longrightarrow> filter is_warning t = [])"
  unfolding get_model_version_def store_call_def warn_difference_def logger_def raised_def
  by (auto split: option.splits prod.splits sum.splits if_splits simp: Let_def)

lemma get_or_create_model_frame:
  "get_or_create_model env s = (r, s') \<Longrightarrow>
     name (self s') = name (self s) \<and> version (self s') = version (self s)
     \<and> model_version_id (self s') = model_version_id (self s)
     \<and> description (self s') = description (self s) \<and> tags (self s') = tags (self s)
     \<and> was_created_in_this_run (self s') = was_created_in_this_run (self s)
     \<and> priv_created_model_version (self s') = priv_created_model_version (self s)"
  unfolding get_or_create_model_def store_call_def return_model_def logger_def
  by (auto split: option.splits prod.splits sum.splits if_splits)

lemma get_model_version_frame:
  "get_model_version env h s = (r, s') \<Longrightarrow>
     name (self s') = name (self s) \<and> version (self s') = version (self s)
     \<and> description (self s') = description (self s) \<and> tags (self s') = tags (self s)
     \<and> was_created_in_this_run (self s') = was_created_in_this_run (self s)
     \<and> priv_created_model_version (self s') = priv_created_model_version (self s)"
  unfolding get_model_version_def store_call_def warn_difference_def logger_def
  by (auto split: option.splits prod.splits sum.splits if_splits simp: Let_def)

lemma reuse_from_context_frame:
  "name (self (reuse_from_context context s)) = name (self s)
   \<and> description (self (reuse_from_context context s)) = description (self s)
   \<and> tags (self (reuse_from_context context s)) = tags (self s)
   \<and> was_created_in_this_run (self (reuse_from_context context s)) = was_created_in_this_run (self s)
   \<and> priv_created_model_version (self (reuse_from_context context s))
       = priv_created_model_version (self s)
   \<and> trace (reuse_from_context context s) = trace s
   \<and> world (reuse_from_context context s) = world s"
  by (simp add: reuse_from_context_def take_over_def split: option.splits)

lemma try_fetch_trace:
  "try_fetch env s = (r, s') \<Longrightarrow>
     \<exists>t. trace s' = trace s @ t
        \<and> filter is_create_call t = [] \<and> filter is_sleep t = []
        \<and> (raised r \<noteq> None \<longrightarrow> filter is_warning t = [])"
  unfolding try_fetch_def Let_def
  by (auto split: if_splits option.splits dest!: get_model_version_trace
      simp: reuse_from_context_frame)

lemma try_fetch_frame:
  "try_fetch env s = (r, s') \<Longrightarrow>
     name (self s') = name (self s)
     \<and> description (self s') = description (self s) \<and> tags (self s') = tags (self s)
     \<and> was_created_in_this_run (self s') = was_created_in_this_run (self s)
     \<and> priv_created_model_version (self s') = priv_created_model_version (self s)"
  unfolding try_fetch_def Let_def
  by (auto split: if_splits option.splits dest!: get_model_version_frame
      simp: reuse_from_context_frame)

lemma try_fetch_truthy:
  "truthy (version (self s)) \<Longrightarrow> try_fetch env s = get_model_version env True s"
  by (simp add: try_fetch_def)


lemma sleeps_append: "sleeps (a @ b) = sleeps a @ sleeps b"
  by (induction a rule: sleeps.induct) simp_all

lemma create_loop_result:
  "create_loop env rq js k s = (res, s') \<Longrightarrow>
     self s' = self s
     \<and> (\<exists>t. trace s' = trace s @ t \<and> filter is_warning t = []
            \<and> (case res of
                  Inr (Some mv) \<Rightarrow> length (filter is_creation t) = 1
                                  \<and> filter is_create_call t \<noteq> []
                | Inr None \<Rightarrow> filter is_creation t = []
                | Inl e \<Rightarrow> filter is_creation t = []))"
proof (induction js arbitrary: k s)
  case Nil
  then show ?case by auto
next
  case (Cons i js)
  obtain r1 w1 where call: "zen_store_create_model_version env rq (world s) = (r1, w1)"
    by (cases "zen_store_create_model_version env rq (world s)")
  define s1 where "s1 = s\<lparr>world := w1, trace := trace s @ [Call (CreateModelVersion rq) (raised r1)]\<rparr>"
  have sc: "store_call (CreateModelVersion rq) (zen_store_create_model_version env rq) s = (r1, s1)"
    by (simp add: store_call_def call s1_def)
  show ?case
  proof (cases r1)
    case (Inr mv)
    with Cons.prems sc show ?thesis
      by (auto simp: s1_def raised_def)
  next
    case (Inl e)
    show ?thesis
    proof (cases "e = EntityExistsError \<and> i + 1 \<noteq> MAX_RETRIES_FOR_VERSIONED_ENTITY_CREATION env")
      case False
      with Cons.prems sc Inl show ?thesis
        by (auto simp: s1_def raised_def split: if_splits)
    next
      case True
      define s2 where "s2 = time_sleep (backoff i) (logger DEBUG (RetryingIn (name (self s1)) (backoff i)) s1)"
      from True Cons.prems sc Inl have rec: "create_loop env rq js (k + 1) s2 = (res, s')"
        by (simp add: s2_def)
      from Cons.IH [OF rec] obtain t where
        self: "self s' = self s2" and t: "trace s' = trace s2 @ t" "filter is_warning t = []"
        and res: "(case res of
                  Inr (Some mv) \<Rightarrow> length (filter is_creation t) = 1
                                  \<and> filter is_create_call t \<noteq> []
                | Inr None \<Rightarrow> filter is_creation t = []
                | Inl e \<Rightarrow> filter is_creation t = [])"
        by blast
      have tr2: "trace s2 = trace s @ [Call (CreateModelVersion rq) (Some e),
           Log DEBUG (RetryingIn (name (self s1)) (backoff i)), Sleep (backoff i)]"
        by (simp add: s2_def s1_def time_sleep_def logger_def Inl raised_def)
      have self2: "self s2 = self s"
        by (simp add: s2_def s1_def time_sleep_def logger_def)
      show ?thesis
      proof (cases res)
        case (Inl e')
        with self self2 t tr2 res show ?thesis by simp
      next
        case (Inr o')
        show ?thesis
          using Inr self self2 t tr2 res by (cases o') simp_all
      qed
    qed
  qed
qed


lemma create_loop_all_conflict:
  assumes conflict: "\<forall>w. fst (zen_store_create_model_version env rq w) = Inl EntityExistsError"
    and less: "i < MAX_RETRIES_FOR_VERSIONED_ENTITY_CREATION env"
  shows "\<exists>s' t.
     create_loop env rq [i..<MAX_RETRIES_FOR_VERSIONED_ENTITY_CREATION env] k s =
       (Inl (RuntimeError
          (CreationRetriesExhausted (version_or_new (version (self s))) (name (self s))
             (k + (MAX_RETRIES_FOR_VERSIONED_ENTITY_CREATION env - 1 - i)))), s')
     \<and> self s' = self s \<and> trace s' = trace s @ t
     \<and> sleeps t = map backoff [i..<MAX_RETRIES_FOR_VERSIONED_ENTITY_CREATION env - 1]
     \<and> length (filter is_create_call t) = MAX_RETRIES_FOR_VERSIONED_ENTITY_CREATION env - i
     \<and> filter is_creation t = []"
  using less
proof (induction "MAX_RETRIES_FOR_VERSIONED_ENTITY_CREATION env - i" arbitrary: i k s)
  case 0
  then show ?case by simp
next
  case (Suc d)
  let ?n = "MAX_RETRIES_FOR_VERSIONED_ENTITY_CREATION env"
  obtain w1 where call: "zen_store_create_model_version env rq (world s) = (Inl EntityExistsError, w1)"
    using conflict by (metis fst_conv surj_pair)
  define s1 where
    "s1 = s\<lparr>world := w1, trace := trace s @ [Call (CreateModelVersion rq) (Some EntityExistsError)]\<rparr>"
  have sc: "store_call (CreateModelVersion rq) (zen_store_create_model_version env rq) s
              = (Inl EntityExistsError, s1)"
    by (simp add: store_call_def call s1_def raised_def)
  have upt: "[i..<?n] = i # [Suc i..<?n]"
    using Suc.prems by (simp add: upt_conv_Cons)
  show ?case
  proof (cases "Suc i = ?n")
    case True
    then have "?n - 1 - i = 0" "[i..<?n - 1] = []" "?n - i = 1" by simp_all
    then show ?thesis
      using True sc upt by (simp add: s1_def)
  next
    case False
    define s2 where
      "s2 = time_sleep (backoff i) (logger DEBUG (RetryingIn (name (self s1)) (backoff i)) s1)"
    have step: "create_loop env rq [i..<?n] k s = create_loop env rq [Suc i..<?n] (k + 1) s2"
      using False sc upt by (simp add: s2_def)
    have d: "d = ?n - Suc i" and lt: "Suc i < ?n"
      using Suc.hyps(2) Suc.prems False by simp_all
    from Suc.hyps(1) [OF d lt, of "k + 1" s2] obtain s' t where
      res: "create_loop env rq [Suc i..<?n] (k + 1) s2 =
         (Inl (RuntimeError
            (CreationRetriesExhausted (version_or_new (version (self s2))) (name (self s2))
               (k + 1 + (?n - 1 - Suc i)))), s')"
      and rest: "self s' = self s2" "trace s' = trace s2 @ t"
        "sleeps t = map backoff [Suc i..<?n - 1]"
        "length (filter is_create_call t) = ?n - Suc i" "filter is_creation t = []"
      by blast
    have self2: "self s2 = self s"
      by (simp add: s2_def s1_def time_sleep_def logger_def)
    have tr2: "trace s2 = trace s @ [Call (CreateModelVersion rq) (Some EntityExistsError),
         Log DEBUG (RetryingIn (name (self s1)) (backoff i)), Sleep (backoff i)]"
      by (simp add: s2_def s1_def time_sleep_def logger_def)
    have k: "k + 1 + (?n - 1 - Suc i) = k + (?n - 1 - i)"
      using lt by simp
    have sl: "[i..<?n - 1] = i # [Suc i..<?n - 1]"
      using lt by (simp add: upt_conv_Cons)
    show ?thesis
      using step res rest self2 tr2 k sl lt by (simp add: sleeps_append)
  qed
qed

lemma create_on_miss_reserved:
  assumes "truthy (version (self s)) \<and> lower (py_str (version (self s))) \<in> set ModelStages_values
           \<or> isnumeric (py_str (version (self s)))"
  shows "create_on_miss env rq s =
     (Inl (RuntimeError
        (if truthy (version (self s)) \<and> lower (py_str (version (self s))) \<in> set ModelStages_values
         then ReservedStageName (py_str (version (self s))) (name (self s))
         else ReservedNumericName (py_str (version (self s))) (name (self s)))), s)"
  using assms by (auto simp: create_on_miss_def Let_def)

lemma create_on_miss_result:
  assumes "create_on_miss env rq s = (r, s')"
  shows "name (self s') = name (self s) \<and> description (self s') = description (self s)
     \<and> tags (self s') = tags (self s) \<and> model_version_id (self s') = model_version_id (self s)
     \<and> (\<exists>t. trace s' = trace s @ t \<and> filter is_warning t = []
            \<and> (case r of
                  Inr mv \<Rightarrow> length (filter is_creation t) = 1 \<and> filter is_create_call t \<noteq> []
                     \<and> was_created_in_this_run (self s') \<and> priv_created_model_version (self s')
                     \<and> version (self s') = map_option VStr (mv_name mv)
                | Inl e \<Rightarrow> filter is_creation t = [] \<and> self s' = self s))"
proof (cases "truthy (version (self s)) \<and> lower (py_str (version (self s))) \<in> set ModelStages_values
           \<or> isnumeric (py_str (version (self s)))")
  case True
  from create_on_miss_reserved [OF True, of env rq] assms show ?thesis by auto
next
  case False
  obtain res s1 where loop:
    "create_loop env rq [0..<MAX_RETRIES_FOR_VERSIONED_ENTITY_CREATION env] 0 s = (res, s1)"
    by (cases "create_loop env rq [0..<MAX_RETRIES_FOR_VERSIONED_ENTITY_CREATION env] 0 s")
  from create_loop_result [OF loop] obtain t where
    self: "self s1 = self s" and t: "trace s1 = trace s @ t" "filter is_warning t = []"
    and res: "(case res of
                  Inr (Some mv) \<Rightarrow> length (filter is_creation t) = 1
                                  \<and> filter is_create_call t \<noteq> []
                | Inr None \<Rightarrow> filter is_creation t = []
                | Inl e \<Rightarrow> filter is_creation t = [])"
    by blast
  have eq: "create_on_miss env rq s =
      (case (res, s1) of
         (Inl e, s1) \<Rightarrow> (Inl e, s1)
       | (Inr None, s1) \<Rightarrow> (Inl UnboundLocalError, s1)
       | (Inr (Some model_version), s1) \<Rightarrow>
                (Inr model_version,
                 logger INFO
                   (CreatedNewModelVersion (map_option VStr (mv_name model_version))
                      (name (self s1)))
                   (s1\<lparr>self := (self s1)
                          \<lparr>version := map_option VStr (mv_name model_version),
                           was_created_in_this_run := True,
                           priv_created_model_version := True\<rparr>\<rparr>)))"
    using False loop by (auto simp: create_on_miss_def Let_def)
  show ?thesis
  proof (cases res)
    case (Inl e)
    with eq assms self t res show ?thesis by auto
  next
    case (Inr o')
    show ?thesis
    proof (cases o')
      case None
      with Inr eq assms self t res show ?thesis by auto
    next
      case (Some mv)
      with Inr eq assms self t res show ?thesis by (auto simp: logger_def)
    qed
  qed
qed


lemma fetch_or_create_result:
  assumes "fetch_or_create env rq s = (r, s')"
  shows "name (self s') = name (self s) \<and> description (self s') = description (self s)
     \<and> tags (self s') = tags (self s)
     \<and> (\<exists>t. trace s' = trace s @ t
            \<and> (filter is_create_call t \<noteq> [] \<longrightarrow> filter is_warning t = [])
            \<and> (case r of
                  Inr mv \<Rightarrow>
                    if filter is_create_call t = []
                    then was_created_in_this_run (self s') = was_created_in_this_run (self s)
                       \<and> priv_created_model_version (self s') = priv_created_model_version (self s)
                    else length (filter is_creation t) = 1
                       \<and> was_created_in_this_run (self s') \<and> priv_created_model_version (self s')
                       \<and> version (self s') = map_option VStr (mv_name mv)
                | Inl e \<Rightarrow> filter is_creation t = []
                    \<and> was_created_in_this_run (self s') = was_created_in_this_run (self s)
                    \<and> priv_created_model_version (self s') = priv_created_model_version (self s)))"
proof -
  obtain r1 s1 where tf: "try_fetch env s = (r1, s1)"
    by (cases "try_fetch env s")
  from try_fetch_trace [OF tf] obtain t1 where
    t1: "trace s1 = trace s @ t1" "filter is_create_call t1 = []"
      "raised r1 \<noteq> None \<longrightarrow> filter is_warning t1 = []"
    by blast
  note fr1 = try_fetch_frame [OF tf]
  have nc1: "filter is_creation t1 = []"
    using t1(2) by (rule filter_create_imp_creation)
  show ?thesis
  proof (cases "r1 = Inl KeyError")
    case False
    then have "(r, s') = (r1, s1)"
      using assms tf by (auto simp: fetch_or_create_def split: sum.splits)
    then show ?thesis
      using fr1 t1 nc1 by (auto split: sum.splits)
  next
    case True
    then have com: "create_on_miss env rq s1 = (r, s')"
      using assms tf by (simp add: fetch_or_create_def)
    from create_on_miss_result [OF com] obtain t2 where
      fr2: "name (self s') = name (self s1)" "description (self s') = description (self s1)"
        "tags (self s') = tags (self s1)"
      and t2: "trace s' = trace s1 @ t2" "filter is_warning t2 = []"
      and res: "(case r of
                  Inr mv \<Rightarrow> length (filter is_creation t2) = 1 \<and> filter is_create_call t2 \<noteq> []
                     \<and> was_created_in_this_run (self s') \<and> priv_created_model_version (self s')
                     \<and> version (self s') = map_option VStr (mv_name mv)
                | Inl e \<Rightarrow> filter is_creation t2 = [] \<and> self s' = self s1)"
      by blast
    have w1: "filter is_warning t1 = []"
      using t1(3) True by (simp add: raised_def)
    have tr: "trace s' = trace s @ (t1 @ t2)"
      using t1(1) t2(1) by simp
    show ?thesis
    proof (cases r)
      case (Inl e)
      with res fr1 fr2 tr w1 t2 nc1 show ?thesis
        by (intro conjI exI [of _ "t1 @ t2"]) simp_all
    next
      case (Inr mv)
      with res fr1 fr2 tr w1 t2 nc1 t1(2) show ?thesis
        by (intro conjI exI [of _ "t1 @ t2"]) simp_all
    qed
  qed
qed


lemma format_version_frame:
  "format_version env s = Inr s' \<Longrightarrow>
     trace s' = trace s \<and> world s' = world s
     \<and> name (self s') = name (self s) \<and> description (self s') = description (self s)
     \<and> tags (self s') = tags (self s) \<and> model_version_id (self s') = model_version_id (self s)
     \<and> was_created_in_this_run (self s') = was_created_in_this_run (self s)
     \<and> priv_created_model_version (self s') = priv_created_model_version (self s)"
  by (auto simp: format_version_def split: option.splits version.splits sum.splits)

lemma cache_resolved_frame:
  "trace (cache_resolved mv s) = trace s \<and> world (cache_resolved mv s) = world s
   \<and> name (self (cache_resolved mv s)) = name (self s)
   \<and> description (self (cache_resolved mv s)) = description (self s)
   \<and> tags (self (cache_resolved mv s)) = tags (self s)
   \<and> version (self (cache_resolved mv s)) = version (self s)
   \<and> was_created_in_this_run (self (cache_resolved mv s)) = was_created_in_this_run (self s)
   \<and> priv_created_model_version (self (cache_resolved mv s)) = priv_created_model_version (self s)
   \<and> model_version_id (self (cache_resolved mv s)) = Some (mv_id mv)
   \<and> priv_model_id (self (cache_resolved mv s)) = Some (m_id (mv_model mv))
   \<and> priv_number (self (cache_resolved mv s)) = Some (mv_number mv)"
  by (simp add: cache_resolved_def)

lemma resolver_result:
  assumes "get_or_create_model_version env h s = (r, s')"
  shows "name (self s') = name (self s) \<and> description (self s') = description (self s)
     \<and> tags (self s') = tags (self s)
     \<and> (\<exists>c x t. trace s' = trace s @ Call c x # t \<and> \<not> is_create_call (Call c x)
            \<and> (filter is_create_call t \<noteq> [] \<longrightarrow> filter is_warning t = [])
            \<and> (case r of
                  Inr mv \<Rightarrow>
                    model_version_id (self s') = Some (mv_id mv)
                    \<and> priv_model_id (self s') = Some (m_id (mv_model mv))
                    \<and> priv_number (self s') = Some (mv_number mv)
                    \<and> (if filter is_create_call t = []
                       then was_created_in_this_run (self s') = was_created_in_this_run (self s)
                          \<and> priv_created_model_version (self s') = priv_created_model_version (self s)
                       else length (filter is_creation t) = 1
                          \<and> was_created_in_this_run (self s') \<and> priv_created_model_version (self s')
                          \<and> version (self s') = map_option VStr (mv_name mv))
                | Inl e \<Rightarrow> filter is_creation t = []
                    \<and> was_created_in_this_run (self s') = was_created_in_this_run (self s)
                    \<and> priv_created_model_version (self s') = priv_created_model_version (self s)))"
proof -
  obtain r0 s1 where gm: "get_or_create_model env s = (r0, s1)"
    by (cases "get_or_create_model env s")
  from get_or_create_model_trace [OF gm] obtain c x t0 where
    t0: "trace s1 = trace s @ Call c x # t0" "\<not> is_create_call (Call c x)"
      "filter is_create_call t0 = []" "filter is_warning t0 = []"
    by blast
  note fr0 = get_or_create_model_frame [OF gm]
  have nc0: "filter is_creation t0 = []"
    using t0(3) by (rule filter_create_imp_creation)
  show ?thesis
  proof (cases r0)
    case (Inl e)
    then have "(r, s') = (Inl e, s1)"
      using assms gm by (simp add: get_or_create_model_version_def)
    then show ?thesis
      using fr0 t0 nc0 by auto
  next
    case (Inr model)
    show ?thesis
    proof (cases "format_version env s1")
      case (Inl e)
      then have "(r, s') = (Inl e, s1)"
        using assms gm Inr by (simp add: get_or_create_model_version_def)
      then show ?thesis
        using fr0 t0 nc0 by auto
    next
      case fm: (Inr s2)
      note fr2 = format_version_frame [OF fm]
      obtain r3 s3 where fc:
        "fetch_or_create env (model_version_request env model (self s2)) s2 = (r3, s3)"
        by (cases "fetch_or_create env (model_version_request env model (self s2)) s2")
      from fetch_or_create_result [OF fc] obtain t3 where
        fr3: "name (self s3) = name (self s2)" "description (self s3) = description (self s2)"
          "tags (self s3) = tags (self s2)"
        and t3: "trace s3 = trace s2 @ t3"
          "filter is_create_call t3 \<noteq> [] \<longrightarrow> filter is_warning t3 = []"
        and res: "(case r3 of
                  Inr mv \<Rightarrow>
                    if filter is_create_call t3 = []
                    then was_created_in_this_run (self s3) = was_created_in_this_run (self s2)
                       \<and> priv_created_model_version (self s3) = priv_created_model_version (self s2)
                    else length (filter is_creation t3) = 1
                       \<and> was_created_in_this_run (self s3) \<and> priv_created_model_version (self s3)
                       \<and> version (self s3) = map_option VStr (mv_name mv)
                | Inl e \<Rightarrow> filter is_creation t3 = []
                    \<and> was_created_in_this_run (self s3) = was_created_in_this_run (self s2)
                    \<and> priv_created_model_version (self s3) = priv_created_model_version (self s2))"
        by blast
      have tr: "trace s3 = trace s @ Call c x # (t0 @ t3)"
        using t0(1) t3(1) fr2 by simp
      show ?thesis
      proof (cases r3)
        case (Inl e)
        then have "(r, s') = (Inl e, s3)"
          using assms gm Inr fm fc by (simp add: get_or_create_model_version_def)
        with Inl res fr0 fr2 fr3 tr t0 nc0 t3 show ?thesis
          by (intro conjI exI [of _ c] exI [of _ x] exI [of _ "t0 @ t3"]) simp_all
      next
        case mv: (Inr mv)
        then have "(r, s') = (Inr mv, cache_resolved mv s3)"
          using assms gm Inr fm fc by (simp add: get_or_create_model_version_def)
        with mv res fr0 fr2 fr3 tr t0 nc0 t3 cache_resolved_frame [of mv s3] show ?thesis
          by (intro conjI exI [of _ c] exI [of _ x] exI [of _ "t0 @ t3"]) (simp_all split: if_splits)
      qed
    qed
  qed
qed

subsection \<open>The validator's notices\<close>

text \<open>
  Claim C3, as the spec has it, fails: the validator compares the token with the stage
  values as it stands, without lowering it. The token \<open>STAGING\<close> is a stage value
  case-insensitively, and the validator emits no notice for it.
\<close>

theorem root_validator_uppercase_counterexample:
  "lower ''STAGING'' \<in> set ModelStages_values
   \<and> root_validator
       \<lparr>data_suppress_class_validation_warnings = None, data_model_version_id = None,
        data_version = Some (VStr ''STAGING'')\<rparr>
     = Inr (\<lparr>data_suppress_class_validation_warnings = Some True, data_model_version_id = None,
             data_version = Some (VStr ''STAGING'')\<rparr>, [])"
  by (simp add: root_validator_def ModelStages_values_def lower_def lower_char_def
      upper_chars_def lower_chars_def isnumeric_def numeric_chars_def digits_def)

text \<open>
  Claim C3, amended. The validator is a function of the data. When the warnings are not
  suppressed and no \<open>model_version_id\<close> is supplied, it returns the data with the
  warnings suppressed, and its notices depend on the token alone: a stage member, or
  a string equal to a stage value as it is written, gets the stage notice; a
  non-negative integer, or a non-empty string of numeric characters (the digits, and
  also characters such as the superscript two), gets the numeric notice; every other
  token, and an absent token, gets none.
\<close>

theorem root_validator_notices:
  assumes "data_suppress_class_validation_warnings d \<noteq> Some True"
    and "data_model_version_id d = None"
  shows "root_validator d =
    Inr (d\<lparr>data_suppress_class_validation_warnings := Some True\<rparr>,
         (case data_version d of
            None \<Rightarrow> []
          | Some (VStage g) \<Rightarrow> [Log INFO (MatchesModelStages (Some (VStage g)))]
          | Some (VInt n) \<Rightarrow>
              if 0 \<le> n then [Log INFO (VersionIsNumeric (Some (VInt n)))] else []
          | Some (VStr t) \<Rightarrow>
              if t \<in> set ModelStages_values then [Log INFO (MatchesModelStages (Some (VStr t)))]
              else if isnumeric t then [Log INFO (VersionIsNumeric (Some (VStr t)))]
              else []))"
proof -
  have supp: "(case data_suppress_class_validation_warnings d of None \<Rightarrow> False | Some b \<Rightarrow> b) = False"
    using assms(1) by (cases "data_suppress_class_validation_warnings d") auto
  show ?thesis
  proof (cases "data_version d")
    case None
    then show ?thesis
      using supp assms(2)
      by (simp add: root_validator_def isnumeric_def numeric_chars_def digits_def)
  next
    case (Some v)
    then show ?thesis
      using supp assms(2)
      by (cases v)
        (simp_all add: root_validator_def isnumeric_str_int stage_value_not_numeric
          values_not_numeric)
  qed
qed

theorem root_validator_notices_witness:
  "root_validator
     \<lparr>data_suppress_class_validation_warnings = None, data_model_version_id = None,
      data_version = Some (VStr ''staging'')\<rparr>
   = Inr (\<lparr>data_suppress_class_validation_warnings = Some True, data_model_version_id = None,
           data_version = Some (VStr ''staging'')\<rparr>,
          [Log INFO (MatchesModelStages (Some (VStr ''staging'')))])
   \<and> root_validator
       \<lparr>data_suppress_class_validation_warnings = None, data_model_version_id = None,
        data_version = Some (VStr [CHR 0xB2])\<rparr>
     = Inr (\<lparr>data_suppress_class_validation_warnings = Some True,
             data_model_version_id = None, data_version = Some (VStr [CHR 0xB2])\<rparr>,
            [Log INFO (VersionIsNumeric (Some (VStr [CHR 0xB2])))])"
  using root_validator_notices
    [of "\<lparr>data_suppress_class_validation_warnings = None, data_model_version_id = None,
         data_version = Some (VStr ''staging'')\<rparr>"]
    root_validator_notices
    [of "\<lparr>data_suppress_class_validation_warnings = None, data_model_version_id = None,
         data_version = Some (VStr [CHR 0xB2])\<rparr>"]
  by (simp add: ModelStages_values_def isnumeric_def numeric_chars_def)

subsection \<open>The lazy version accessor\<close>

text \<open>
  Claim C10. The lazy version accessor is a function of the reference's fields alone:
  it takes no store and returns no trace, so it can neither fetch nor create. It is
  the string form of the resolved number when that is set, whatever the version
  selector is; otherwise the string form of the declared selector (for a stage, the
  stage's value); otherwise nothing.
\<close>

theorem lazy_version_pure:
  "lazy_version (m\<lparr>priv_number := Some n\<rparr>) = Some (str_int n)
   \<and> lazy_version (m\<lparr>priv_number := None, version := Some (VStage g)\<rparr>) = Some (stage_value g)
   \<and> lazy_version (m\<lparr>priv_number := None, version := Some (VInt i)\<rparr>) = Some (str_int i)
   \<and> lazy_version (m\<lparr>priv_number := None, version := Some (VStr s)\<rparr>) = Some s
   \<and> lazy_version (m\<lparr>priv_number := None, version := None\<rparr>) = None"
  by (simp add: lazy_version_def)

subsection \<open>Running the example store\<close>

lemmas example_defs =
  get_or_create_model_version_def get_or_create_model_def fetch_or_create_def try_fetch_def
  create_on_miss_def format_version_def get_model_version_def warn_difference_def
  compute_difference_def no_difference_def cache_resolved_def model_version_request_def
  model_request_def return_model_def store_call_def logger_def time_sleep_def raised_def
  reuse_from_context_def first_created_def created_in_run_for_def take_over_def
  version_or_new_def scripted_env_def start_def churn_def churn_model_def version_one_def
  isnumeric_def numeric_chars_def lower_def lower_char_def upper_chars_def lower_chars_def
  ModelStages_values_def digits_def new_events_def
  backoff_def upt_conv_Cons Let_def

lemma new_events_append: "trace s' = trace s @ t \<Longrightarrow> new_events s s' = t"
  by (simp add: new_events_def)

lemma filter_empty_not_ex: "filter P t = [] \<Longrightarrow> \<not> list_ex P t"
  by (simp add: list_ex_iff filter_empty_conv)

lemma filter_one_ex: "length (filter P t) = 1 \<Longrightarrow> list_ex P t"
  by (cases "filter P t") (auto simp: list_ex_iff filter_eq_Cons_iff)

subsection \<open>What a successful resolution leaves on the reference\<close>

text \<open>
  Claim C9. Whenever \<open>_get_or_create_model_version\<close> returns a version, the reference
  holds that version's id, its number and the id of its model. The flag
  \<open>was_created_in_this_run\<close> is true afterwards exactly if it was true before or this
  call created the version (a \<open>create_model_version\<close> call that returned is among the
  events the call appended): a call that reuses or fetches leaves the flag as it was.
\<close>

theorem resolution_caches_and_marks:
  assumes "get_or_create_model_version env hydrate s = (Inr mv, s')"
  shows "model_version_id (self s') = Some (mv_id mv)
     \<and> priv_number (self s') = Some (mv_number mv)
     \<and> priv_model_id (self s') = Some (m_id (mv_model mv))
     \<and> was_created_in_this_run (self s')
         = (was_created_in_this_run (self s) \<or> list_ex is_creation (new_events s s'))"
proof -
  from resolver_result [OF assms] obtain c x t where
    tr: "trace s' = trace s @ Call c x # t" and nc: "\<not> is_create_call (Call c x)"
    and ids: "model_version_id (self s') = Some (mv_id mv)"
      "priv_model_id (self s') = Some (m_id (mv_model mv))"
      "priv_number (self s') = Some (mv_number mv)"
    and flag: "if filter is_create_call t = []
               then was_created_in_this_run (self s') = was_created_in_this_run (self s)
                  \<and> priv_created_model_version (self s') = priv_created_model_version (self s)
               else length (filter is_creation t) = 1
                  \<and> was_created_in_this_run (self s') \<and> priv_created_model_version (self s')
                  \<and> version (self s') = map_option VStr (mv_name mv)"
    by auto
  have ne: "new_events s s' = Call c x # t"
    using tr by (rule new_events_append)
  have first: "\<not> is_creation (Call c x)"
    using nc by (cases "Call c x" rule: is_creation.cases) auto
  have "was_created_in_this_run (self s')
          = (was_created_in_this_run (self s) \<or> list_ex is_creation t)"
  proof (cases "filter is_create_call t = []")
    case True
    then have "\<not> list_ex is_creation t"
      by (intro filter_empty_not_ex filter_create_imp_creation)
    with True flag show ?thesis by simp
  next
    case False
    with flag have "list_ex is_creation t" "was_created_in_this_run (self s')"
      by (simp_all add: filter_one_ex)
    then show ?thesis by simp
  qed
  with ids ne first show ?thesis by simp
qed

theorem resolution_caches_and_marks_witness:
  "model_version_id (self (snd (get_or_create_model_version
       (scripted_env (\<lambda>w. Inr churn_model) (\<lambda>w. Inl EntityExistsError) (\<lambda>w. Inl KeyError)
          (\<lambda>w. Inr version_one) None 10) False (start churn)))) = Some (UUID 7)
   \<and> priv_number (self (snd (get_or_create_model_version
       (scripted_env (\<lambda>w. Inr churn_model) (\<lambda>w. Inl EntityExistsError) (\<lambda>w. Inl KeyError)
          (\<lambda>w. Inr version_one) None 10) False (start churn)))) = Some 1
   \<and> was_created_in_this_run (self (snd (get_or_create_model_version
       (scripted_env (\<lambda>w. Inr churn_model) (\<lambda>w. Inl EntityExistsError) (\<lambda>w. Inl KeyError)
          (\<lambda>w. Inr version_one) None 10) False (start churn))))"
proof -
  let ?env = "scripted_env (\<lambda>w. Inr churn_model) (\<lambda>w. Inl EntityExistsError)
     (\<lambda>w. Inl KeyError) (\<lambda>w. Inr version_one) None 10"
  have run: "get_or_create_model_version ?env False (start churn)
     = (Inr version_one, snd (get_or_create_model_version ?env False (start churn)))"
    by (simp add: example_defs)
  have "list_ex is_creation
     (new_events (start churn) (snd (get_or_create_model_version ?env False (start churn))))"
    by (simp add: example_defs)
  with resolution_caches_and_marks [OF run] show ?thesis
    by (simp add: version_one_def)
qed

subsection \<open>A model created by a concurrent caller\<close>

text \<open>
  Claim C8. The reference carries no version id, the lookup of the model by name raises
  \<open>KeyError\<close> and the creation of the model raises. If it raises \<open>EntityExistsError\<close>
  and the second lookup by name returns a model, \<open>_get_or_create_model\<close> returns that
  model after exactly these three store calls, with the model's id on the reference.
  If the creation raises anything else, that exception is the outcome, after the two
  calls and with the reference untouched.
\<close>

theorem get_or_create_model_conflict_refetch:
  assumes "model_version_id (self s) = None"
    and "zen_store_get_model env (name (self s)) (world s) = (Inl KeyError, w1)"
    and "zen_store_create_model env (model_request env (self s)) w1 = (Inl e, w2)"
  shows "(e = EntityExistsError \<and> zen_store_get_model env (name (self s)) w2 = (Inr model, w3)
          \<longrightarrow> get_or_create_model env s =
               (Inr model,
                \<lparr>self = (self s)\<lparr>priv_model_id := Some (m_id model)\<rparr>, world = w3,
                 trace = trace s @
                   [Call (GetModel (name (self s))) (Some KeyError),
                    Call (CreateModel (model_request env (self s))) (Some EntityExistsError),
                    Call (GetModel (name (self s))) None]\<rparr>))
     \<and> (e \<noteq> EntityExistsError
          \<longrightarrow> get_or_create_model env s =
               (Inl e,
                \<lparr>self = self s, world = w2,
                 trace = trace s @
                   [Call (GetModel (name (self s))) (Some KeyError),
                    Call (CreateModel (model_request env (self s))) (Some e)]\<rparr>))"
  using assms
  by (simp add: get_or_create_model_def store_call_def return_model_def raised_def)

theorem get_or_create_model_conflict_refetch_witness:
  "get_or_create_model
     (scripted_env (\<lambda>w. if w = 0 then Inl KeyError else Inr churn_model)
        (\<lambda>w. Inl EntityExistsError) (\<lambda>w. Inl KeyError) (\<lambda>w. Inr version_one) None 10)
     (start churn)
   = (Inr churn_model,
      \<lparr>self = churn\<lparr>priv_model_id := Some (UUID 1)\<rparr>, world = 3,
       trace =
         [Call (GetModel ''churn'') (Some KeyError),
          Call (CreateModel
                 (model_request
                    (scripted_env (\<lambda>w. if w = 0 then Inl KeyError else Inr churn_model)
                       (\<lambda>w. Inl EntityExistsError) (\<lambda>w. Inl KeyError)
                       (\<lambda>w. Inr version_one) None 10) churn))
            (Some EntityExistsError),
          Call (GetModel ''churn'') None]\<rparr>)
   \<and> get_or_create_model
       (scripted_env (\<lambda>w. Inl KeyError) (\<lambda>w. Inl (OtherException ''connection lost''))
          (\<lambda>w. Inl KeyError) (\<lambda>w. Inr version_one) None 10)
       (start churn)
     = (Inl (OtherException ''connection lost''),
        \<lparr>self = churn, world = 2,
         trace =
           [Call (GetModel ''churn'') (Some KeyError),
            Call (CreateModel
                   (model_request
                      (scripted_env (\<lambda>w. Inl KeyError)
                         (\<lambda>w. Inl (OtherException ''connection lost''))
                         (\<lambda>w. Inl KeyError) (\<lambda>w. Inr version_one) None 10) churn))
              (Some (OtherException ''connection lost''))]\<rparr>)"
  using
    get_or_create_model_conflict_refetch
      [of "start churn"
          "scripted_env (\<lambda>w. if w = 0 then Inl KeyError else Inr churn_model)
             (\<lambda>w. Inl EntityExistsError) (\<lambda>w. Inl KeyError) (\<lambda>w. Inr version_one) None 10"
          1 EntityExistsError 2 churn_model 3]
    get_or_create_model_conflict_refetch
      [of "start churn"
          "scripted_env (\<lambda>w. Inl KeyError) (\<lambda>w. Inl (OtherException ''connection lost''))
             (\<lambda>w. Inl KeyError) (\<lambda>w. Inr version_one) None 10"
          1 "OtherException ''connection lost''" 2]
  by (simp add: scripted_env_def start_def churn_def churn_model_def)

subsection \<open>The comparison with the configuration\<close>

lemma compute_difference_frame [simp]:
  "compute_difference (m\<lparr>model_version_id := x\<rparr>) mv = compute_difference m mv"
  by (simp add: compute_difference_def split: option.splits)

lemma get_model_version_hit:
  assumes "client_get_model_version env
             (case model_version_id (self s) of Some vid \<Rightarrow> None | None \<Rightarrow> Some (name (self s)))
             (case model_version_id (self s) of
                Some vid \<Rightarrow> KeyId vid | None \<Rightarrow> KeyVersion (version (self s)))
             (Some hydrate) (world s) = (Inr mv, w)"
  shows "get_model_version env hydrate s =
      (Inr mv,
       \<lparr>self = (self s)\<lparr>model_version_id :=
                 (case model_version_id (self s) of
                    Some vid \<Rightarrow> Some vid | None \<Rightarrow> Some (mv_id mv))\<rparr>,
        world = w,
        trace = trace s @
          Call (GetModelVersion
                  (case model_version_id (self s) of
                     Some vid \<Rightarrow> None | None \<Rightarrow> Some (name (self s)))
                  (case model_version_id (self s) of
                     Some vid \<Rightarrow> KeyId vid | None \<Rightarrow> KeyVersion (version (self s)))
                  (Some hydrate)) None
          # (if compute_difference (self s) mv = no_difference then []
             else [Log WARNING
                     (ConfigurationDoesNotMatch (name (self s)) (version (self s))
                        (compute_difference (self s) mv))])\<rparr>)"
  using assms
  by (cases "model_version_id (self s)")
    (simp_all add: get_model_version_def store_call_def warn_difference_def logger_def
      raised_def Let_def)

lemma resolver_no_warning_on_creation:
  assumes "get_or_create_model_version env hydrate s = (r, s')"
    and "list_ex is_create_call (new_events s s')"
  shows "\<not> list_ex is_warning (new_events s s')"
proof -
  from resolver_result [OF assms(1)] obtain c x t where
    tr: "trace s' = trace s @ Call c x # t" and nc: "\<not> is_create_call (Call c x)"
    and w: "filter is_create_call t \<noteq> [] \<longrightarrow> filter is_warning t = []"
    by auto
  have ne: "new_events s s' = Call c x # t"
    using tr by (rule new_events_append)
  with assms(2) nc have "list_ex is_create_call t" by simp
  then have "filter is_create_call t \<noteq> []"
    by (auto simp: list_ex_iff filter_empty_conv)
  with w have "\<not> list_ex is_warning t"
    by (simp add: filter_empty_not_ex)
  with ne show ?thesis by simp
qed


text \<open>
  Claim C7. When the store returns a version to \<open>_get_model_version\<close>, the call does not
  raise and returns that version as the store gave it. The description and the tags of
  the reference are as before, the one store call made is the fetch, and the log gets
  one warning carrying the difference if there is one, and nothing otherwise. The
  difference holds the declared and the stored description when the response has
  metadata and a declared, non-empty description differs from the stored one; it
  holds the declared tags that are not stored and the stored tags that are not
  declared when declared, non-empty tags differ from the stored ones as sets. A
  resolution that issues a call to create a version logs no such warning.
\<close>

theorem reconciliation_diff_warns_only:
  assumes "client_get_model_version env
             (case model_version_id (self s) of Some vid \<Rightarrow> None | None \<Rightarrow> Some (name (self s)))
             (case model_version_id (self s) of
                Some vid \<Rightarrow> KeyId vid | None \<Rightarrow> KeyVersion (version (self s)))
             (Some hydrate) (world s) = (Inr mv, w)"
  shows "(\<exists>s'. get_model_version env hydrate s = (Inr mv, s')
           \<and> description (self s') = description (self s) \<and> tags (self s') = tags (self s)
           \<and> world s' = w
           \<and> filter is_store_call (new_events s s') =
               [Call (GetModelVersion
                  (case model_version_id (self s) of
                     Some vid \<Rightarrow> None | None \<Rightarrow> Some (name (self s)))
                  (case model_version_id (self s) of
                     Some vid \<Rightarrow> KeyId vid | None \<Rightarrow> KeyVersion (version (self s)))
                  (Some hydrate)) None]
           \<and> filter (\<lambda>e. \<not> is_store_call e) (new_events s s') =
               (if compute_difference (self s) mv = no_difference then []
                else [Log WARNING
                        (ConfigurationDoesNotMatch (name (self s)) (version (self s))
                           (compute_difference (self s) mv))]))
     \<and> (mv_metadata mv = Some md \<and> description (self s) = Some c \<and> c \<noteq> []
          \<and> md_description md \<noteq> Some c
          \<longrightarrow> diff_description (compute_difference (self s) mv) = Some (c, md_description md))
     \<and> (tags (self s) = Some ts \<and> ts \<noteq> [] \<and> set ts \<noteq> set (mv_tags mv)
          \<longrightarrow> diff_tags_added (compute_difference (self s) mv) = Some (set ts - set (mv_tags mv))
            \<and> diff_tags_removed (compute_difference (self s) mv)
                = Some (set (mv_tags mv) - set ts))
     \<and> (get_or_create_model_version env2 hydrate2 q = (r, q')
          \<and> list_ex is_create_call (new_events q q')
          \<longrightarrow> \<not> list_ex is_warning (new_events q q'))"
proof (intro conjI)
  show "\<exists>s'. get_model_version env hydrate s = (Inr mv, s')
           \<and> description (self s') = description (self s) \<and> tags (self s') = tags (self s)
           \<and> world s' = w
           \<and> filter is_store_call (new_events s s') =
               [Call (GetModelVersion
                  (case model_version_id (self s) of
                     Some vid \<Rightarrow> None | None \<Rightarrow> Some (name (self s)))
                  (case model_version_id (self s) of
                     Some vid \<Rightarrow> KeyId vid | None \<Rightarrow> KeyVersion (version (self s)))
                  (Some hydrate)) None]
           \<and> filter (\<lambda>e. \<not> is_store_call e) (new_events s s') =
               (if compute_difference (self s) mv = no_difference then []
                else [Log WARNING
                        (ConfigurationDoesNotMatch (name (self s)) (version (self s))
                           (compute_difference (self s) mv))])"
    by (simp add: get_model_version_hit [OF assms] new_events_def)
next
  show "mv_metadata mv = Some md \<and> description (self s) = Some c \<and> c \<noteq> []
          \<and> md_description md \<noteq> Some c
          \<longrightarrow> diff_description (compute_difference (self s) mv) = Some (c, md_description md)"
    by (simp add: compute_difference_def no_difference_def Let_def split: option.splits)
next
  show "tags (self s) = Some ts \<and> ts \<noteq> [] \<and> set ts \<noteq> set (mv_tags mv)
          \<longrightarrow> diff_tags_added (compute_difference (self s) mv) = Some (set ts - set (mv_tags mv))
            \<and> diff_tags_removed (compute_difference (self s) mv)
                = Some (set (mv_tags mv) - set ts)"
    by (auto simp: compute_difference_def no_difference_def Let_def split: option.splits)
next
  show "get_or_create_model_version env2 hydrate2 q = (r, q')
          \<and> list_ex is_create_call (new_events q q')
          \<longrightarrow> \<not> list_ex is_warning (new_events q q')"
    using resolver_no_warning_on_creation by blast
qed

theorem reconciliation_diff_warns_only_witness:
  "get_model_version
     (scripted_env (\<lambda>w. Inr churn_model) (\<lambda>w. Inl EntityExistsError) (\<lambda>w. Inr version_one)
        (\<lambda>w. Inl EntityExistsError) None 10) True
     (start (churn\<lparr>description := Some ''declared'', tags := Some [''b'', ''c''],
                    version := Some (VStr ''1'')\<rparr>))
   = (Inr version_one,
      \<lparr>self = churn\<lparr>description := Some ''declared'', tags := Some [''b'', ''c''],
                     version := Some (VStr ''1''), model_version_id := Some (UUID 7)\<rparr>,
       world = 1,
       trace =
         [Call (GetModelVersion (Some ''churn'') (KeyVersion (Some (VStr ''1''))) (Some True))
            None,
          Log WARNING
            (ConfigurationDoesNotMatch ''churn'' (Some (VStr ''1''))
               \<lparr>diff_description = Some (''declared'', Some ''first version''),
                diff_tags_added = Some {''c''}, diff_tags_removed = Some {''a''}\<rparr>)]\<rparr>)
   \<and> mv_tags version_one = [''a'', ''b'']
   \<and> \<not> list_ex is_warning
         (new_events (start churn)
            (snd (get_or_create_model_version
                    (scripted_env (\<lambda>w. Inr churn_model) (\<lambda>w. Inl EntityExistsError)
                       (\<lambda>w. Inl KeyError) (\<lambda>w. Inr version_one) None 10)
                    False (start churn))))"
proof -
  let ?env = "scripted_env (\<lambda>w. Inr churn_model) (\<lambda>w. Inl EntityExistsError)
     (\<lambda>w. Inr version_one) (\<lambda>w. Inl EntityExistsError) None 10"
  let ?s = "start (churn\<lparr>description := Some ''declared'', tags := Some [''b'', ''c''],
                    version := Some (VStr ''1'')\<rparr>)"
  let ?env2 = "scripted_env (\<lambda>w. Inr churn_model) (\<lambda>w. Inl EntityExistsError)
     (\<lambda>w. Inl KeyError) (\<lambda>w. Inr version_one) None 10"
  have fetch: "client_get_model_version ?env
             (case model_version_id (self ?s) of Some vid \<Rightarrow> None | None \<Rightarrow> Some (name (self ?s)))
             (case model_version_id (self ?s) of
                Some vid \<Rightarrow> KeyId vid | None \<Rightarrow> KeyVersion (version (self ?s)))
             (Some True) (world ?s) = (Inr version_one, 1)"
    by (simp add: scripted_env_def start_def churn_def)
  have run: "get_or_create_model_version ?env2 False (start churn)
     = (Inr version_one, snd (get_or_create_model_version ?env2 False (start churn)))"
    by (simp add: example_defs)
  have attempted: "list_ex is_create_call
     (new_events (start churn) (snd (get_or_create_model_version ?env2 False (start churn))))"
    by (simp add: example_defs)
  have ne: "{''a'', ''b''} \<noteq> {''b'', ''c''}"
  proof
    assume "{''a'', ''b''} = {''b'', ''c''}"
    moreover have "''a'' \<in> {''a'', ''b''}" by simp
    ultimately have "''a'' \<in> {''b'', ''c''}" by simp
    then show False by simp
  qed
  have added: "set [''b'', ''c''] - set [''a'', ''b''] = {''c''}" by auto
  have removed: "set [''a'', ''b''] - set [''b'', ''c''] = {''a''}" by auto
  from reconciliation_diff_warns_only
    [OF fetch, where md = "\<lparr>md_description = Some ''first version''\<rparr>" and c = "''declared''"
      and ts = "[''b'', ''c'']" and ?env2.0 = ?env2 and ?hydrate2.0 = False and q = "start churn"
      and r = "Inr version_one"
      and q' = "snd (get_or_create_model_version ?env2 False (start churn))"]
    run attempted ne added removed
  show ?thesis
    by (simp add: example_defs Let_def)
qed

subsection \<open>The delays and the attempts of the creation loop\<close>

lemma sleeps_none: "filter is_sleep t = [] \<Longrightarrow> sleeps t = []"
  by (induction t rule: sleeps.induct) (auto split: if_splits)

lemma create_loop_sleeps:
  "create_loop env rq js k s = (res, s') \<Longrightarrow>
     \<exists>t m. trace s' = trace s @ t \<and> sleeps t = map backoff (take m js)"
proof (induction js arbitrary: k s)
  case Nil
  then show ?case by auto
next
  case (Cons i js)
  obtain r1 w1 where call: "zen_store_create_model_version env rq (world s) = (r1, w1)"
    by (cases "zen_store_create_model_version env rq (world s)")
  define s1 where "s1 = s\<lparr>world := w1, trace := trace s @ [Call (CreateModelVersion rq) (raised r1)]\<rparr>"
  have sc: "store_call (CreateModelVersion rq) (zen_store_create_model_version env rq) s = (r1, s1)"
    by (simp add: store_call_def call s1_def)
  show ?case
  proof (cases "r1 = Inl EntityExistsError \<and> i + 1 \<noteq> MAX_RETRIES_FOR_VERSIONED_ENTITY_CREATION env")
    case False
    with Cons.prems sc have "trace s' = trace s @ [Call (CreateModelVersion rq) (raised r1)]"
      by (auto simp: s1_def split: sum.splits if_splits)
    then have "trace s' = trace s @ [Call (CreateModelVersion rq) (raised r1)]
        \<and> sleeps [Call (CreateModelVersion rq) (raised r1)] = map backoff (take 0 (i # js))"
      by simp
    then show ?thesis by blast
  next
    case True
    define s2 where "s2 = time_sleep (backoff i) (logger DEBUG (RetryingIn (name (self s1)) (backoff i)) s1)"
    from True Cons.prems sc have rec: "create_loop env rq js (k + 1) s2 = (res, s')"
      by (simp add: s2_def)
    from Cons.IH [OF rec] obtain t m where
      t: "trace s' = trace s2 @ t" "sleeps t = map backoff (take m js)"
      by blast
    have tr2: "trace s2 = trace s @ [Call (CreateModelVersion rq) (raised r1),
         Log DEBUG (RetryingIn (name (self s1)) (backoff i)), Sleep (backoff i)]"
      by (simp add: s2_def s1_def time_sleep_def logger_def)
    have "trace s' = trace s @ ([Call (CreateModelVersion rq) (raised r1),
         Log DEBUG (RetryingIn (name (self s1)) (backoff i)), Sleep (backoff i)] @ t)
       \<and> sleeps ([Call (CreateModelVersion rq) (raised r1),
         Log DEBUG (RetryingIn (name (self s1)) (backoff i)), Sleep (backoff i)] @ t)
           = map backoff (take (Suc m) (i # js))"
      using t tr2 by simp
    then show ?thesis by blast
  qed
qed

lemma create_on_miss_sleeps:
  assumes "create_on_miss env rq s = (r, s')"
  shows "\<exists>t m. trace s' = trace s @ t \<and> sleeps t = map backoff [0..<m]"
proof (cases "truthy (version (self s)) \<and> lower (py_str (version (self s))) \<in> set ModelStages_values
           \<or> isnumeric (py_str (version (self s)))")
  case True
  from create_on_miss_reserved [OF True, of env rq] assms have "s' = s" by simp
  then have "trace s' = trace s @ [] \<and> sleeps [] = map backoff [0..<0]" by simp
  then show ?thesis by blast
next
  case False
  obtain res s1 where loop:
    "create_loop env rq [0..<MAX_RETRIES_FOR_VERSIONED_ENTITY_CREATION env] 0 s = (res, s1)"
    by (cases "create_loop env rq [0..<MAX_RETRIES_FOR_VERSIONED_ENTITY_CREATION env] 0 s")
  from create_loop_sleeps [OF loop] obtain t m where
    t: "trace s1 = trace s @ t"
      "sleeps t = map backoff (take m [0..<MAX_RETRIES_FOR_VERSIONED_ENTITY_CREATION env])"
    by blast
  have "trace s' = trace s1 \<or> (\<exists>e. trace s' = trace s1 @ [Log INFO e])"
    using False loop assms
    by (auto simp: create_on_miss_def Let_def logger_def split: sum.splits option.splits)
  moreover have "sleeps t = map backoff [0..<min m (MAX_RETRIES_FOR_VERSIONED_ENTITY_CREATION env)]"
    using t(2) by (simp add: take_upt min_def)
  ultimately have "\<exists>t'. trace s' = trace s @ t'
      \<and> sleeps t' = map backoff [0..<min m (MAX_RETRIES_FOR_VERSIONED_ENTITY_CREATION env)]"
    using t(1) by (auto simp: sleeps_append)
  then show ?thesis by blast
qed

lemma fetch_or_create_sleeps:
  assumes "fetch_or_create env rq s = (r, s')"
  shows "\<exists>t m. trace s' = trace s @ t \<and> sleeps t = map backoff [0..<m]"
proof -
  obtain r1 s1 where tf: "try_fetch env s = (r1, s1)"
    by (cases "try_fetch env s")
  from try_fetch_trace [OF tf] obtain t1 where
    t1: "trace s1 = trace s @ t1" "filter is_sleep t1 = []"
    by blast
  have sl1: "sleeps t1 = []"
    using t1(2) by (rule sleeps_none)
  show ?thesis
  proof (cases "r1 = Inl KeyError")
    case False
    then have "s' = s1"
      using assms tf by (auto simp: fetch_or_create_def split: sum.splits)
    then have "trace s' = trace s @ t1 \<and> sleeps t1 = map backoff [0..<0]"
      using t1 sl1 by simp
    then show ?thesis by blast
  next
    case True
    then have com: "create_on_miss env rq s1 = (r, s')"
      using assms tf by (simp add: fetch_or_create_def)
    from create_on_miss_sleeps [OF com] obtain t2 m where
      "trace s' = trace s1 @ t2" "sleeps t2 = map backoff [0..<m]"
      by blast
    then have "trace s' = trace s @ (t1 @ t2) \<and> sleeps (t1 @ t2) = map backoff [0..<m]"
      using t1 sl1 by (simp add: sleeps_append)
    then show ?thesis by blast
  qed
qed

lemma resolver_sleeps:
  assumes "get_or_create_model_version env h s = (r, s')"
  shows "\<exists>m. sleeps (new_events s s') = map backoff [0..<m]"
proof -
  obtain r0 s1 where gm: "get_or_create_model env s = (r0, s1)"
    by (cases "get_or_create_model env s")
  from get_or_create_model_trace [OF gm] obtain c x t0 where
    t0: "trace s1 = trace s @ Call c x # t0" "filter is_sleep t0 = []"
    by blast
  have sl0: "sleeps (Call c x # t0) = []"
    using t0(2) by (simp add: sleeps_none)
  have early: "s' = s1 \<Longrightarrow> ?thesis"
  proof -
    assume "s' = s1"
    then have "sleeps (new_events s s') = map backoff [0..<0]"
      using t0(1) sl0 by (simp add: new_events_def)
    then show ?thesis by blast
  qed
  show ?thesis
  proof (cases r0)
    case (Inl e)
    then have "s' = s1"
      using assms gm by (simp add: get_or_create_model_version_def)
    then show ?thesis by (rule early)
  next
    case (Inr model)
    show ?thesis
    proof (cases "format_version env s1")
      case (Inl e)
      then have "s' = s1"
        using assms gm Inr by (simp add: get_or_create_model_version_def)
      then show ?thesis by (rule early)
    next
      case fm: (Inr s2)
      note fr2 = format_version_frame [OF fm]
      obtain r3 s3 where fc:
        "fetch_or_create env (model_version_request env model (self s2)) s2 = (r3, s3)"
        by (cases "fetch_or_create env (model_version_request env model (self s2)) s2")
      from fetch_or_create_sleeps [OF fc] obtain t3 m where
        t3: "trace s3 = trace s2 @ t3" "sleeps t3 = map backoff [0..<m]"
        by blast
      have "trace s' = trace s3"
        using assms gm Inr fm fc
        by (auto simp: get_or_create_model_version_def cache_resolved_def split: sum.splits)
      then have "new_events s s' = (Call c x # t0) @ t3"
        using t0(1) t3(1) fr2 by (simp add: new_events_def)
      then have "sleeps (new_events s s') = map backoff [0..<m]"
        using sl0 t3(2) by (simp only: sleeps_append) simp
      then show ?thesis by blast
    qed
  qed
qed


text \<open>
  Claim C4. In every resolution, whatever the store answers, the delays slept are an
  initial part of the schedule: the delay after the conflict of attempt \<open>i\<close> (counted
  from 0) is \<open>0.2 * 1.5 ^ i\<close>. The schedule starts 0.2, 0.3, 0.45, 0.675, 1.0125, which
  is within a hundredth of the spec's 0.2, 0.3, 0.45, 0.68, 1.02. Delays are exact
  rationals here; the rounding of floating-point arithmetic is not modelled.
\<close>

theorem backoff_schedule:
  assumes "get_or_create_model_version env hydrate s = (r, s')"
  shows "sleeps (new_events s s') =
           map (\<lambda>i. (2 / 10) * (15 / 10) ^ i) [0..<length (sleeps (new_events s s'))]
     \<and> map backoff [0, 1, 2, 3, 4] = [2 / 10, 3 / 10, 45 / 100, 675 / 1000, 10125 / 10000]
     \<and> \<bar>backoff 3 - 68 / 100\<bar> \<le> 1 / 100 \<and> \<bar>backoff 4 - 102 / 100\<bar> \<le> 1 / 100"
proof -
  from resolver_sleeps [OF assms] obtain m where
    m: "sleeps (new_events s s') = map backoff [0..<m]"
    by blast
  then have "length (sleeps (new_events s s')) = m" by simp
  with m have "sleeps (new_events s s') =
           map (\<lambda>i. (2 / 10) * (15 / 10) ^ i) [0..<length (sleeps (new_events s s'))]"
    by (simp add: backoff_def)
  moreover have "map backoff [0, 1, 2, 3, 4] = [2 / 10, 3 / 10, 45 / 100, 675 / 1000, 10125 / 10000]"
    by (simp add: backoff_def eval_nat_numeral)
  moreover have "\<bar>backoff 3 - 68 / 100\<bar> \<le> 1 / 100" "\<bar>backoff 4 - 102 / 100\<bar> \<le> 1 / 100"
    by (simp_all add: backoff_def eval_nat_numeral)
  ultimately show ?thesis by blast
qed

theorem backoff_schedule_witness:
  "sleeps (new_events (start churn)
     (snd (get_or_create_model_version
             (scripted_env (\<lambda>w. Inr churn_model) (\<lambda>w. Inl EntityExistsError)
                (\<lambda>w. Inl KeyError) (\<lambda>w. Inl EntityExistsError) None 10)
             False (start churn))))
   = [1 / 5, 3 / 10, 9 / 20, 27 / 40, 81 / 80, 243 / 160, 729 / 320, 2187 / 640, 6561 / 1280]"
proof -
  let ?env = "scripted_env (\<lambda>w. Inr churn_model) (\<lambda>w. Inl EntityExistsError)
     (\<lambda>w. Inl KeyError) (\<lambda>w. Inl EntityExistsError) None 10"
  let ?s' = "snd (get_or_create_model_version ?env False (start churn))"
  have run: "get_or_create_model_version ?env False (start churn)
     = (fst (get_or_create_model_version ?env False (start churn)), ?s')"
    by simp
  have eval: "sleeps (new_events (start churn) ?s')
     = [1 / 5, 3 / 10, 9 / 20, 27 / 40, 81 / 80, 243 / 160, 729 / 320, 2187 / 640, 6561 / 1280]"
    by (simp add: example_defs)
  from backoff_schedule [OF run] eval show ?thesis
    by simp
qed

lemma create_on_miss_all_conflict:
  assumes conflict: "\<forall>w. fst (zen_store_create_model_version env rq w) = Inl EntityExistsError"
    and pos: "0 < MAX_RETRIES_FOR_VERSIONED_ENTITY_CREATION env"
    and res: "create_on_miss env rq s = (r, s')"
  shows "self s' = self s
     \<and> (\<exists>t. trace s' = trace s @ t
           \<and> (filter is_create_call t = []
               \<or> length (filter is_create_call t) = MAX_RETRIES_FOR_VERSIONED_ENTITY_CREATION env
                  \<and> filter is_creation t = []
                  \<and> r = Inl (RuntimeError
                       (CreationRetriesExhausted (version_or_new (version (self s)))
                          (name (self s)) (MAX_RETRIES_FOR_VERSIONED_ENTITY_CREATION env - 1)))))"
proof (cases "truthy (version (self s)) \<and> lower (py_str (version (self s))) \<in> set ModelStages_values
           \<or> isnumeric (py_str (version (self s)))")
  case True
  from create_on_miss_reserved [OF True, of env rq] res have "s' = s" by simp
  then have "self s' = self s \<and> trace s' = trace s @ [] \<and> filter is_create_call [] = []"
    by simp
  then show ?thesis by blast
next
  case False
  from create_loop_all_conflict [OF conflict pos, of 0 s] obtain s1 t where
    loop: "create_loop env rq [0..<MAX_RETRIES_FOR_VERSIONED_ENTITY_CREATION env] 0 s =
       (Inl (RuntimeError
          (CreationRetriesExhausted (version_or_new (version (self s))) (name (self s))
             (0 + (MAX_RETRIES_FOR_VERSIONED_ENTITY_CREATION env - 1 - 0)))), s1)"
    and t: "self s1 = self s" "trace s1 = trace s @ t"
      "length (filter is_create_call t) = MAX_RETRIES_FOR_VERSIONED_ENTITY_CREATION env - 0"
      "filter is_creation t = []"
    by blast
  have "create_on_miss env rq s =
       (Inl (RuntimeError
          (CreationRetriesExhausted (version_or_new (version (self s))) (name (self s))
             (MAX_RETRIES_FOR_VERSIONED_ENTITY_CREATION env - 1))), s1)"
    using False loop by (auto simp: create_on_miss_def Let_def)
  with res t show ?thesis by auto
qed

lemma fetch_or_create_all_conflict:
  assumes conflict: "\<forall>w. fst (zen_store_create_model_version env rq w) = Inl EntityExistsError"
    and pos: "0 < MAX_RETRIES_FOR_VERSIONED_ENTITY_CREATION env"
    and res: "fetch_or_create env rq s = (r, s')"
  shows "\<exists>t. trace s' = trace s @ t
           \<and> (filter is_create_call t = []
               \<or> length (filter is_create_call t) = MAX_RETRIES_FOR_VERSIONED_ENTITY_CREATION env
                  \<and> filter is_creation t = []
                  \<and> r = Inl (RuntimeError
                       (CreationRetriesExhausted (version_or_new (version (self s')))
                          (name (self s)) (MAX_RETRIES_FOR_VERSIONED_ENTITY_CREATION env - 1))))"
proof -
  obtain r1 s1 where tf: "try_fetch env s = (r1, s1)"
    by (cases "try_fetch env s")
  from try_fetch_trace [OF tf] obtain t1 where
    t1: "trace s1 = trace s @ t1" "filter is_create_call t1 = []"
    by blast
  note fr1 = try_fetch_frame [OF tf]
  show ?thesis
  proof (cases "r1 = Inl KeyError")
    case False
    then have "s' = s1"
      using res tf by (auto simp: fetch_or_create_def split: sum.splits)
    with t1 show ?thesis by blast
  next
    case True
    then have com: "create_on_miss env rq s1 = (r, s')"
      using res tf by (simp add: fetch_or_create_def)
    from create_on_miss_all_conflict [OF conflict pos com] obtain t2 where
      self: "self s' = self s1" and t2: "trace s' = trace s1 @ t2"
      and alt: "filter is_create_call t2 = []
               \<or> length (filter is_create_call t2) = MAX_RETRIES_FOR_VERSIONED_ENTITY_CREATION env
                  \<and> filter is_creation t2 = []
                  \<and> r = Inl (RuntimeError
                       (CreationRetriesExhausted (version_or_new (version (self s1)))
                          (name (self s1)) (MAX_RETRIES_FOR_VERSIONED_ENTITY_CREATION env - 1)))"
      by blast
    have tr: "trace s' = trace s @ (t1 @ t2)"
      using t1(1) t2 by simp
    have nc1: "filter is_creation t1 = []"
      using t1(2) by (rule filter_create_imp_creation)
    from alt self fr1 t1(2) nc1 have
      "filter is_create_call (t1 @ t2) = []
               \<or> length (filter is_create_call (t1 @ t2)) = MAX_RETRIES_FOR_VERSIONED_ENTITY_CREATION env
                  \<and> filter is_creation (t1 @ t2) = []
                  \<and> r = Inl (RuntimeError
                       (CreationRetriesExhausted (version_or_new (version (self s')))
                          (name (self s)) (MAX_RETRIES_FOR_VERSIONED_ENTITY_CREATION env - 1)))"
      by auto
    with tr show ?thesis by blast
  qed
qed

lemma resolver_all_conflict:
  assumes conflict:
      "\<forall>rq w. fst (zen_store_create_model_version env rq w) = Inl EntityExistsError"
    and pos: "0 < MAX_RETRIES_FOR_VERSIONED_ENTITY_CREATION env"
    and res: "get_or_create_model_version env h s = (r, s')"
    and attempted: "list_ex is_create_call (new_events s s')"
  shows "length (filter is_create_call (new_events s s'))
           = MAX_RETRIES_FOR_VERSIONED_ENTITY_CREATION env
     \<and> filter is_creation (new_events s s') = []
     \<and> r = Inl (RuntimeError
              (CreationRetriesExhausted (version_or_new (version (self s')))
                 (name (self s)) (MAX_RETRIES_FOR_VERSIONED_ENTITY_CREATION env - 1)))"
proof -
  obtain r0 s1 where gm: "get_or_create_model env s = (r0, s1)"
    by (cases "get_or_create_model env s")
  from get_or_create_model_trace [OF gm] obtain c x t0 where
    t0: "trace s1 = trace s @ Call c x # t0" "\<not> is_create_call (Call c x)"
      "filter is_create_call t0 = []"
    by blast
  note fr0 = get_or_create_model_frame [OF gm]
  have nc: "\<not> is_creation (Call c x)"
    using t0(2) by (cases "Call c x" rule: is_creation.cases) auto
  have nc0: "filter is_creation t0 = []"
    using t0(3) by (rule filter_create_imp_creation)
  have early: "s' = s1 \<Longrightarrow> False"
  proof -
    assume "s' = s1"
    then have "new_events s s' = Call c x # t0"
      using t0(1) by (simp add: new_events_def)
    with attempted t0(2,3) show False
      by (auto simp: list_ex_iff filter_empty_conv)
  qed
  show ?thesis
  proof (cases r0)
    case (Inl e)
    then have "s' = s1"
      using res gm by (simp add: get_or_create_model_version_def)
    then show ?thesis using early by blast
  next
    case (Inr model)
    show ?thesis
    proof (cases "format_version env s1")
      case (Inl e)
      then have "s' = s1"
        using res gm Inr by (simp add: get_or_create_model_version_def)
      then show ?thesis using early by blast
    next
      case fm: (Inr s2)
      note fr2 = format_version_frame [OF fm]
      let ?rq = "model_version_request env model (self s2)"
      obtain r3 s3 where fc: "fetch_or_create env ?rq s2 = (r3, s3)"
        by (cases "fetch_or_create env ?rq s2")
      have conflict': "\<forall>w. fst (zen_store_create_model_version env ?rq w) = Inl EntityExistsError"
        using conflict by blast
      from fetch_or_create_all_conflict [OF conflict' pos fc] obtain t3 where
        t3: "trace s3 = trace s2 @ t3"
        and alt: "filter is_create_call t3 = []
               \<or> length (filter is_create_call t3) = MAX_RETRIES_FOR_VERSIONED_ENTITY_CREATION env
                  \<and> filter is_creation t3 = []
                  \<and> r3 = Inl (RuntimeError
                       (CreationRetriesExhausted (version_or_new (version (self s3)))
                          (name (self s2)) (MAX_RETRIES_FOR_VERSIONED_ENTITY_CREATION env - 1)))"
        by blast
      have tr: "trace s' = trace s3"
        using res gm Inr fm fc
        by (auto simp: get_or_create_model_version_def cache_resolved_def split: sum.splits)
      then have ne: "new_events s s' = Call c x # t0 @ t3"
        using t0(1) t3 fr2 by (simp add: new_events_def)
      have "filter is_create_call t3 \<noteq> []"
        using attempted ne t0(2,3) by (auto simp: list_ex_iff filter_empty_conv)
      with alt have len: "length (filter is_create_call t3) = MAX_RETRIES_FOR_VERSIONED_ENTITY_CREATION env"
        and none: "filter is_creation t3 = []"
        and r3: "r3 = Inl (RuntimeError
                       (CreationRetriesExhausted (version_or_new (version (self s3)))
                          (name (self s2)) (MAX_RETRIES_FOR_VERSIONED_ENTITY_CREATION env - 1)))"
        by auto
      have "(r, s') = (r3, s3)"
        using res gm Inr fm fc r3 by (auto simp: get_or_create_model_version_def)
      with len none r3 ne t0(2,3) nc nc0 fr0 fr2 show ?thesis
        by simp
    qed
  qed
qed


lemma create_loop_fatal:
  "create_loop env rq js k s = (res, s') \<Longrightarrow>
     \<exists>t. trace s' = trace s @ t
       \<and> (\<forall>q e. Call (CreateModelVersion q) (Some e) \<in> set t \<and> e \<noteq> EntityExistsError
              \<longrightarrow> res = Inl e \<and> last t = Call (CreateModelVersion q) (Some e))"
proof (induction js arbitrary: k s)
  case Nil
  then have "trace s' = trace s @ []" by simp
  then show ?case by fastforce
next
  case (Cons i js)
  obtain r1 w1 where call: "zen_store_create_model_version env rq (world s) = (r1, w1)"
    by (cases "zen_store_create_model_version env rq (world s)")
  define s1 where "s1 = s\<lparr>world := w1, trace := trace s @ [Call (CreateModelVersion rq) (raised r1)]\<rparr>"
  have sc: "store_call (CreateModelVersion rq) (zen_store_create_model_version env rq) s = (r1, s1)"
    by (simp add: store_call_def call s1_def)
  show ?case
  proof (cases "r1 = Inl EntityExistsError")
    case False
    with Cons.prems sc have out: "s' = s1" "res = map_sum (\<lambda>e. e) Some r1"
      by (auto split: sum.splits if_splits)
    have "trace s' = trace s @ [Call (CreateModelVersion rq) (raised r1)]"
      using out by (simp add: s1_def)
    moreover have "\<forall>q e. Call (CreateModelVersion q) (Some e) \<in> set [Call (CreateModelVersion rq) (raised r1)]
              \<and> e \<noteq> EntityExistsError
              \<longrightarrow> res = Inl e \<and> last [Call (CreateModelVersion rq) (raised r1)]
                    = Call (CreateModelVersion q) (Some e)"
      using out False by (cases r1) (auto simp: raised_def)
    ultimately show ?thesis by blast
  next
    case True
    show ?thesis
    proof (cases "i + 1 = MAX_RETRIES_FOR_VERSIONED_ENTITY_CREATION env")
      case last: True
      with True Cons.prems sc have "s' = s1"
        by auto
      then have "trace s' = trace s @ [Call (CreateModelVersion rq) (Some EntityExistsError)]"
        using True by (simp add: s1_def raised_def)
      moreover have "\<forall>q e. Call (CreateModelVersion q) (Some e)
                \<in> set [Call (CreateModelVersion rq) (Some EntityExistsError)]
              \<and> e \<noteq> EntityExistsError
              \<longrightarrow> res = Inl e \<and> last [Call (CreateModelVersion rq) (Some EntityExistsError)]
                    = Call (CreateModelVersion q) (Some e)"
        by simp
      ultimately show ?thesis by blast
    next
      case False
      define s2 where "s2 = time_sleep (backoff i) (logger DEBUG (RetryingIn (name (self s1)) (backoff i)) s1)"
      from True False Cons.prems sc have rec: "create_loop env rq js (k + 1) s2 = (res, s')"
        by (simp add: s2_def)
      from Cons.IH [OF rec] obtain t where
        t: "trace s' = trace s2 @ t"
        and fatal: "\<forall>q e. Call (CreateModelVersion q) (Some e) \<in> set t \<and> e \<noteq> EntityExistsError
              \<longrightarrow> res = Inl e \<and> last t = Call (CreateModelVersion q) (Some e)"
        by blast
      let ?pre = "[Call (CreateModelVersion rq) (Some EntityExistsError),
           Log DEBUG (RetryingIn (name (self s1)) (backoff i)), Sleep (backoff i)]"
      have tr2: "trace s2 = trace s @ ?pre"
        by (simp add: s2_def s1_def time_sleep_def logger_def True raised_def)
      have "trace s' = trace s @ (?pre @ t)"
        using t tr2 by simp
      moreover have "\<forall>q e. Call (CreateModelVersion q) (Some e) \<in> set (?pre @ t)
              \<and> e \<noteq> EntityExistsError
              \<longrightarrow> res = Inl e \<and> last (?pre @ t) = Call (CreateModelVersion q) (Some e)"
      proof (intro allI impI)
        fix q e
        assume a: "Call (CreateModelVersion q) (Some e) \<in> set (?pre @ t) \<and> e \<noteq> EntityExistsError"
        then have mem: "Call (CreateModelVersion q) (Some e) \<in> set t" by auto
        then have "t \<noteq> []" by auto
        with fatal mem a show "res = Inl e \<and> last (?pre @ t) = Call (CreateModelVersion q) (Some e)"
          by simp
      qed
      ultimately show ?thesis by blast
    qed
  qed
qed


lemma no_create_call_mem:
  "filter is_create_call t = [] \<Longrightarrow> Call (CreateModelVersion q) x \<notin> set t"
  by (auto simp: filter_empty_conv)

lemma create_on_miss_fatal:
  assumes "create_on_miss env rq s = (r, s')"
  shows "\<exists>t. trace s' = trace s @ t
       \<and> (\<forall>q e. Call (CreateModelVersion q) (Some e) \<in> set t \<and> e \<noteq> EntityExistsError
              \<longrightarrow> r = Inl e \<and> last t = Call (CreateModelVersion q) (Some e))"
proof (cases "truthy (version (self s)) \<and> lower (py_str (version (self s))) \<in> set ModelStages_values
           \<or> isnumeric (py_str (version (self s)))")
  case True
  from create_on_miss_reserved [OF True, of env rq] assms have "trace s' = trace s @ []" by simp
  then show ?thesis by fastforce
next
  case False
  obtain res s1 where loop:
    "create_loop env rq [0..<MAX_RETRIES_FOR_VERSIONED_ENTITY_CREATION env] 0 s = (res, s1)"
    by (cases "create_loop env rq [0..<MAX_RETRIES_FOR_VERSIONED_ENTITY_CREATION env] 0 s")
  from create_loop_fatal [OF loop] obtain t where
    t: "trace s1 = trace s @ t"
    and fatal: "\<forall>q e. Call (CreateModelVersion q) (Some e) \<in> set t \<and> e \<noteq> EntityExistsError
              \<longrightarrow> res = Inl e \<and> last t = Call (CreateModelVersion q) (Some e)"
    by blast
  show ?thesis
  proof (cases res)
    case (Inl e0)
    then have "(r, s') = (Inl e0, s1)"
      using False loop assms by (auto simp: create_on_miss_def Let_def)
    with t fatal Inl show ?thesis by auto
  next
    case (Inr o')
    then have none: "\<forall>q e. Call (CreateModelVersion q) (Some e) \<in> set t \<longrightarrow> e = EntityExistsError"
      using fatal by auto
    have "trace s' = trace s1 \<or> (\<exists>m. trace s' = trace s1 @ [Log INFO m])"
      using False loop assms Inr
      by (auto simp: create_on_miss_def Let_def logger_def split: option.splits)
    then obtain u where u: "trace s' = trace s @ (t @ u)" "u = [] \<or> (\<exists>m. u = [Log INFO m])"
      using t by auto
    have "\<forall>q e. Call (CreateModelVersion q) (Some e) \<in> set (t @ u) \<and> e \<noteq> EntityExistsError
              \<longrightarrow> r = Inl e \<and> last (t @ u) = Call (CreateModelVersion q) (Some e)"
      using none u(2) by auto
    with u(1) show ?thesis by blast
  qed
qed

lemma fetch_or_create_fatal:
  assumes "fetch_or_create env rq s = (r, s')"
  shows "\<exists>t. trace s' = trace s @ t
       \<and> (\<forall>q e. Call (CreateModelVersion q) (Some e) \<in> set t \<and> e \<noteq> EntityExistsError
              \<longrightarrow> r = Inl e \<and> last t = Call (CreateModelVersion q) (Some e))"
proof -
  obtain r1 s1 where tf: "try_fetch env s = (r1, s1)"
    by (cases "try_fetch env s")
  from try_fetch_trace [OF tf] obtain t1 where
    t1: "trace s1 = trace s @ t1" "filter is_create_call t1 = []"
    by blast
  note nc1 = no_create_call_mem [OF t1(2)]
  show ?thesis
  proof (cases "r1 = Inl KeyError")
    case False
    then have "s' = s1"
      using assms tf by (auto simp: fetch_or_create_def split: sum.splits)
    with t1(1) nc1 show ?thesis by blast
  next
    case True
    then have com: "create_on_miss env rq s1 = (r, s')"
      using assms tf by (simp add: fetch_or_create_def)
    from create_on_miss_fatal [OF com] obtain t2 where
      t2: "trace s' = trace s1 @ t2"
      and fatal: "\<forall>q e. Call (CreateModelVersion q) (Some e) \<in> set t2 \<and> e \<noteq> EntityExistsError
              \<longrightarrow> r = Inl e \<and> last t2 = Call (CreateModelVersion q) (Some e)"
      by blast
    have "\<forall>q e. Call (CreateModelVersion q) (Some e) \<in> set (t1 @ t2) \<and> e \<noteq> EntityExistsError
              \<longrightarrow> r = Inl e \<and> last (t1 @ t2) = Call (CreateModelVersion q) (Some e)"
    proof (intro allI impI)
      fix q e
      assume a: "Call (CreateModelVersion q) (Some e) \<in> set (t1 @ t2) \<and> e \<noteq> EntityExistsError"
      then have mem: "Call (CreateModelVersion q) (Some e) \<in> set t2"
        using nc1 by auto
      then have "t2 \<noteq> []" by auto
      with fatal mem a show "r = Inl e \<and> last (t1 @ t2) = Call (CreateModelVersion q) (Some e)"
        by simp
    qed
    moreover have "trace s' = trace s @ (t1 @ t2)"
      using t1(1) t2 by simp
    ultimately show ?thesis by blast
  qed
qed

lemma resolver_fatal:
  assumes res: "get_or_create_model_version env h s = (r, s')"
    and mem: "Call (CreateModelVersion q) (Some e) \<in> set (new_events s s')"
    and other: "e \<noteq> EntityExistsError"
  shows "r = Inl e \<and> last (new_events s s') = Call (CreateModelVersion q) (Some e)"
proof -
  obtain r0 s1 where gm: "get_or_create_model env s = (r0, s1)"
    by (cases "get_or_create_model env s")
  from get_or_create_model_trace [OF gm] obtain c x t0 where
    t0: "trace s1 = trace s @ Call c x # t0" "\<not> is_create_call (Call c x)"
      "filter is_create_call t0 = []"
    by blast
  have nc0: "Call (CreateModelVersion q) (Some e) \<notin> set (Call c x # t0)"
    using t0(2) no_create_call_mem [OF t0(3)] by auto
  have early: "s' = s1 \<Longrightarrow> False"
    using mem nc0 t0(1) by (simp add: new_events_def)
  show ?thesis
  proof (cases r0)
    case (Inl e0)
    then have "s' = s1"
      using res gm by (simp add: get_or_create_model_version_def)
    then show ?thesis using early by blast
  next
    case (Inr model)
    show ?thesis
    proof (cases "format_version env s1")
      case (Inl e0)
      then have "s' = s1"
        using res gm Inr by (simp add: get_or_create_model_version_def)
      then show ?thesis using early by blast
    next
      case fm: (Inr s2)
      note fr2 = format_version_frame [OF fm]
      let ?rq = "model_version_request env model (self s2)"
      obtain r3 s3 where fc: "fetch_or_create env ?rq s2 = (r3, s3)"
        by (cases "fetch_or_create env ?rq s2")
      from fetch_or_create_fatal [OF fc] obtain t3 where
        t3: "trace s3 = trace s2 @ t3"
        and fatal: "\<forall>q e. Call (CreateModelVersion q) (Some e) \<in> set t3 \<and> e \<noteq> EntityExistsError
              \<longrightarrow> r3 = Inl e \<and> last t3 = Call (CreateModelVersion q) (Some e)"
        by blast
      have tr: "trace s' = trace s3"
        using res gm Inr fm fc
        by (auto simp: get_or_create_model_version_def cache_resolved_def split: sum.splits)
      then have ne: "new_events s s' = (Call c x # t0) @ t3"
        using t0(1) t3 fr2 by (simp add: new_events_def)
      with mem nc0 have in3: "Call (CreateModelVersion q) (Some e) \<in> set t3"
        by auto
      then have "t3 \<noteq> []" by auto
      from fatal in3 other have r3: "r3 = Inl e" and l3: "last t3 = Call (CreateModelVersion q) (Some e)"
        by auto
      have "r = r3"
        using res gm Inr fm fc r3 by (auto simp: get_or_create_model_version_def)
      with r3 l3 ne \<open>t3 \<noteq> []\<close> show ?thesis
        by simp
    qed
  qed
qed


text \<open>
  Claim C5. Take any resolution. If the store answers every call to create a version
  with a uniqueness conflict, the maximum number of attempts is positive and the
  resolution attempts a creation at all, then it makes exactly the maximum number of
  creation calls, none of which returns, and fails with the \<open>RuntimeError\<close> that
  reports the version the reference holds then (a string as it is, a stage by its
  value, a number in decimal; \<open>new\<close> when there is none or it is empty or zero), the
  model's name and the number of retries made, one less than the maximum. If a creation call raises anything but a uniqueness
  conflict, that exception is the outcome of the resolution and that call is the last
  thing the resolution did.
\<close>

theorem retry_exhaustion:
  assumes "get_or_create_model_version env hydrate s = (r, s')"
  shows "((\<forall>rq w. fst (zen_store_create_model_version env rq w) = Inl EntityExistsError)
          \<and> 0 < MAX_RETRIES_FOR_VERSIONED_ENTITY_CREATION env
          \<and> list_ex is_create_call (new_events s s')
          \<longrightarrow> length (filter is_create_call (new_events s s'))
                = MAX_RETRIES_FOR_VERSIONED_ENTITY_CREATION env
            \<and> filter is_creation (new_events s s') = []
            \<and> r = Inl (RuntimeError
                  (CreationRetriesExhausted
                     (case version (self s') of
                        None \<Rightarrow> ''new''
                      | Some (VStage g) \<Rightarrow> stage_value g
                      | Some (VInt n) \<Rightarrow> if n = 0 then ''new'' else str_int n
                      | Some (VStr t) \<Rightarrow> if t = [] then ''new'' else t)
                     (name (self s)) (MAX_RETRIES_FOR_VERSIONED_ENTITY_CREATION env - 1))))
     \<and> (Call (CreateModelVersion q) (Some e) \<in> set (new_events s s') \<and> e \<noteq> EntityExistsError
          \<longrightarrow> r = Inl e \<and> last (new_events s s') = Call (CreateModelVersion q) (Some e))"
proof -
  have shown: "version_or_new v =
      (case v of
         None \<Rightarrow> ''new''
       | Some (VStage g) \<Rightarrow> stage_value g
       | Some (VInt n) \<Rightarrow> if n = 0 then ''new'' else str_int n
       | Some (VStr t) \<Rightarrow> if t = [] then ''new'' else t)" for v
    by (simp add: version_or_new_def stage_value_nonempty split: option.splits version.splits)
  show ?thesis
    using resolver_all_conflict [OF _ _ assms] resolver_fatal [OF assms]
    unfolding shown by blast
qed

theorem retry_exhaustion_witness:
  "fst (get_or_create_model_version
          (scripted_env (\<lambda>w. Inr churn_model) (\<lambda>w. Inl EntityExistsError)
             (\<lambda>w. Inl KeyError) (\<lambda>w. Inl EntityExistsError) None 10)
          False (start churn))
     = Inl (RuntimeError (CreationRetriesExhausted ''new'' ''churn'' 9))
   \<and> length (filter is_create_call (new_events (start churn)
        (snd (get_or_create_model_version
                (scripted_env (\<lambda>w. Inr churn_model) (\<lambda>w. Inl EntityExistsError)
                   (\<lambda>w. Inl KeyError) (\<lambda>w. Inl EntityExistsError) None 10)
                False (start churn))))) = 10
   \<and> fst (get_or_create_model_version
          (scripted_env (\<lambda>w. Inr churn_model) (\<lambda>w. Inl EntityExistsError)
             (\<lambda>w. Inl KeyError) (\<lambda>w. Inl EntityExistsError) None 3)
          False (start (churn\<lparr>version := Some (VStr ''v1'')\<rparr>)))
     = Inl (RuntimeError (CreationRetriesExhausted ''v1'' ''churn'' 2))
   \<and> length (filter is_create_call (new_events (start (churn\<lparr>version := Some (VStr ''v1'')\<rparr>))
        (snd (get_or_create_model_version
                (scripted_env (\<lambda>w. Inr churn_model) (\<lambda>w. Inl EntityExistsError)
                   (\<lambda>w. Inl KeyError) (\<lambda>w. Inl EntityExistsError) None 3)
                False (start (churn\<lparr>version := Some (VStr ''v1'')\<rparr>)))))) = 3
   \<and> fst (get_or_create_model_version
          (scripted_env (\<lambda>w. Inr churn_model) (\<lambda>w. Inl EntityExistsError)
             (\<lambda>w. Inl KeyError) (\<lambda>w. Inl (OtherException ''timeout'')) None 10)
          False (start churn))
     = Inl (OtherException ''timeout'')
   \<and> length (filter is_create_call (new_events (start churn)
        (snd (get_or_create_model_version
                (scripted_env (\<lambda>w. Inr churn_model) (\<lambda>w. Inl EntityExistsError)
                   (\<lambda>w. Inl KeyError) (\<lambda>w. Inl (OtherException ''timeout'')) None 10)
                False (start churn))))) = 1"
proof -
  let ?env1 = "scripted_env (\<lambda>w. Inr churn_model) (\<lambda>w. Inl EntityExistsError)
     (\<lambda>w. Inl KeyError) (\<lambda>w. Inl EntityExistsError) None 10"
  let ?env2 = "scripted_env (\<lambda>w. Inr churn_model) (\<lambda>w. Inl EntityExistsError)
     (\<lambda>w. Inl KeyError) (\<lambda>w. Inl (OtherException ''timeout'')) None 10"
  let ?env3 = "scripted_env (\<lambda>w. Inr churn_model) (\<lambda>w. Inl EntityExistsError)
     (\<lambda>w. Inl KeyError) (\<lambda>w. Inl EntityExistsError) None 3"
  let ?named = "start (churn\<lparr>version := Some (VStr ''v1'')\<rparr>)"
  let ?rq = "\<lparr>vrq_user = UUID 100, vrq_workspace = UUID 200, vrq_name = None,
              vrq_description = None, vrq_model = UUID 1, vrq_tags = None\<rparr>"
  have run: "get_or_create_model_version env False s
     = (fst (get_or_create_model_version env False s),
        snd (get_or_create_model_version env False s))" for env :: "nat env" and s
    by simp
  have conflict: "\<forall>rq w. fst (zen_store_create_model_version ?env1 rq w) = Inl EntityExistsError"
    "\<forall>rq w. fst (zen_store_create_model_version ?env3 rq w) = Inl EntityExistsError"
    and pos: "0 < MAX_RETRIES_FOR_VERSIONED_ENTITY_CREATION ?env1"
    "0 < MAX_RETRIES_FOR_VERSIONED_ENTITY_CREATION ?env3"
    by (simp_all add: scripted_env_def)
  have attempted: "list_ex is_create_call
     (new_events (start churn) (snd (get_or_create_model_version ?env1 False (start churn))))"
    "list_ex is_create_call
     (new_events ?named (snd (get_or_create_model_version ?env3 False ?named)))"
    by (simp_all add: example_defs)
  have version:
    "version (self (snd (get_or_create_model_version ?env1 False (start churn)))) = None"
    "version (self (snd (get_or_create_model_version ?env3 False ?named))) = Some (VStr ''v1'')"
    and name: "name (self (start churn)) = ''churn''" "name (self ?named) = ''churn''"
    by (simp_all add: example_defs)
  have raised: "Call (CreateModelVersion ?rq) (Some (OtherException ''timeout''))
     \<in> set (new_events (start churn)
          (snd (get_or_create_model_version ?env2 False (start churn))))"
    by (simp add: example_defs)
  have count: "length (filter is_create_call (new_events (start churn)
        (snd (get_or_create_model_version ?env2 False (start churn))))) = 1"
    by (simp add: example_defs)
  from retry_exhaustion [OF run, of ?env1 "start churn"] conflict(1) pos(1) attempted(1)
    version(1) name(1)
  have "fst (get_or_create_model_version ?env1 False (start churn))
     = Inl (RuntimeError (CreationRetriesExhausted ''new'' ''churn'' 9))
   \<and> length (filter is_create_call (new_events (start churn)
        (snd (get_or_create_model_version ?env1 False (start churn))))) = 10"
    by (simp add: scripted_env_def)
  moreover from retry_exhaustion [OF run, of ?env3 ?named] conflict(2) pos(2) attempted(2)
    version(2) name(2)
  have "fst (get_or_create_model_version ?env3 False ?named)
     = Inl (RuntimeError (CreationRetriesExhausted ''v1'' ''churn'' 2))
   \<and> length (filter is_create_call (new_events ?named
        (snd (get_or_create_model_version ?env3 False ?named)))) = 3"
    by (simp add: scripted_env_def)
  moreover from retry_exhaustion [OF run, of ?env2 "start churn" ?rq "OtherException ''timeout''"]
    raised
  have "fst (get_or_create_model_version ?env2 False (start churn))
     = Inl (OtherException ''timeout'')"
    by simp
  ultimately show ?thesis using count by simp
qed

subsection \<open>A selector whose version is not in the store\<close>

lemma create_loop_first:
  assumes "create_loop env rq (i # js) k s = (res, s')"
  shows "\<exists>x t. trace s' = trace s @ Call (CreateModelVersion rq) x # t"
proof -
  obtain r1 w1 where call: "zen_store_create_model_version env rq (world s) = (r1, w1)"
    by (cases "zen_store_create_model_version env rq (world s)")
  define s1 where "s1 = s\<lparr>world := w1, trace := trace s @ [Call (CreateModelVersion rq) (raised r1)]\<rparr>"
  have sc: "store_call (CreateModelVersion rq) (zen_store_create_model_version env rq) s = (r1, s1)"
    by (simp add: store_call_def call s1_def)
  show ?thesis
  proof (cases "r1 = Inl EntityExistsError \<and> i + 1 \<noteq> MAX_RETRIES_FOR_VERSIONED_ENTITY_CREATION env")
    case False
    with assms sc have "trace s' = trace s @ Call (CreateModelVersion rq) (raised r1) # []"
      by (auto simp: s1_def split: sum.splits if_splits)
    then show ?thesis by blast
  next
    case True
    define s2 where "s2 = time_sleep (backoff i) (logger DEBUG (RetryingIn (name (self s1)) (backoff i)) s1)"
    from True assms sc have rec: "create_loop env rq js (k + 1) s2 = (res, s')"
      by (simp add: s2_def)
    from create_loop_result [OF rec] obtain t where "trace s' = trace s2 @ t"
      by blast
    then have "trace s' = trace s @ Call (CreateModelVersion rq) (raised r1)
        # ([Log DEBUG (RetryingIn (name (self s1)) (backoff i)), Sleep (backoff i)] @ t)"
      by (simp add: s2_def s1_def time_sleep_def logger_def)
    then show ?thesis by blast
  qed
qed

lemma create_on_miss_first:
  assumes res: "create_on_miss env rq s = (r, s')"
    and free: "\<not> (truthy (version (self s)) \<and> lower (py_str (version (self s))) \<in> set ModelStages_values)"
      "\<not> isnumeric (py_str (version (self s)))"
    and pos: "0 < MAX_RETRIES_FOR_VERSIONED_ENTITY_CREATION env"
  shows "\<exists>x t. trace s' = trace s @ Call (CreateModelVersion rq) x # t"
proof -
  let ?n = "MAX_RETRIES_FOR_VERSIONED_ENTITY_CREATION env"
  obtain res1 s1 where loop: "create_loop env rq [0..<?n] 0 s = (res1, s1)"
    by (cases "create_loop env rq [0..<?n] 0 s")
  have "[0..<?n] = 0 # [1..<?n]"
    using pos by (simp add: upt_conv_Cons)
  with loop have "create_loop env rq (0 # [1..<?n]) 0 s = (res1, s1)" by simp
  from create_loop_first [OF this] obtain x t where
    t: "trace s1 = trace s @ Call (CreateModelVersion rq) x # t"
    by blast
  have "trace s' = trace s1 \<or> (\<exists>m. trace s' = trace s1 @ [Log INFO m])"
    using free loop res
    by (auto simp: create_on_miss_def Let_def logger_def split: sum.splits option.splits)
  with t have "trace s' = trace s @ Call (CreateModelVersion rq) x # t
      \<or> (\<exists>m. trace s' = trace s @ Call (CreateModelVersion rq) x # (t @ [Log INFO m]))"
    by auto
  then show ?thesis by blast
qed


lemma resolver_after_miss:
  assumes gm: "get_or_create_model env s = (Inr model, s1)"
    and fm: "format_version env s1 = Inr s2"
    and sel: "truthy (version (self s2))"
    and miss: "get_model_version env True s2 = (Inl KeyError, s3)"
  shows "get_or_create_model_version env hydrate s =
       (case create_on_miss env (model_version_request env model (self s2)) s3 of
          (Inl e, s4) \<Rightarrow> (Inl e, s4)
        | (Inr mv, s4) \<Rightarrow> (Inr mv, cache_resolved mv s4))"
    and "version (self s3) = version (self s2)"
    and "name (self s3) = name (self s)"
    and "\<exists>t. trace s3 = trace s @ t \<and> filter is_create_call t = []"
proof -
  have tf: "try_fetch env s2 = (Inl KeyError, s3)"
    using sel miss by (simp add: try_fetch_truthy)
  show "get_or_create_model_version env hydrate s =
       (case create_on_miss env (model_version_request env model (self s2)) s3 of
          (Inl e, s4) \<Rightarrow> (Inl e, s4)
        | (Inr mv, s4) \<Rightarrow> (Inr mv, cache_resolved mv s4))"
    using gm fm tf
    by (simp add: get_or_create_model_version_def fetch_or_create_def split: prod.splits sum.splits)
  show "version (self s3) = version (self s2)"
    using get_model_version_frame [OF miss] by simp
  show "name (self s3) = name (self s)"
    using get_model_version_frame [OF miss] format_version_frame [OF fm]
      get_or_create_model_frame [OF gm] by simp
  from get_or_create_model_trace [OF gm] obtain c x t0 where
    t0: "trace s1 = trace s @ Call c x # t0" "\<not> is_create_call (Call c x)"
      "filter is_create_call t0 = []"
    by blast
  from get_model_version_trace [OF miss] obtain t3 where
    t3: "trace s3 = trace s2 @ t3" "filter is_create_call t3 = []"
    by blast
  have "trace s3 = trace s @ (Call c x # t0 @ t3) \<and> filter is_create_call (Call c x # t0 @ t3) = []"
    using t0 t3 format_version_frame [OF fm] by simp
  then show "\<exists>t. trace s3 = trace s @ t \<and> filter is_create_call t = []"
    by blast
qed

text \<open>
  Claim C1, as the spec has it, fails for an explicit name: the version \<open>v1\<close> of \<open>churn\<close>
  is not in the store, and the resolver creates a version of that name.
\<close>

theorem explicit_name_miss_creates_counterexample:
  "get_or_create_model_version
     (scripted_env (\<lambda>w. Inr churn_model) (\<lambda>w. Inl EntityExistsError) (\<lambda>w. Inl KeyError)
        (\<lambda>w. Inr (version_one\<lparr>mv_name := Some ''v1''\<rparr>)) None 10)
     False (start (churn\<lparr>version := Some (VStr ''v1'')\<rparr>))
   = (Inr (version_one\<lparr>mv_name := Some ''v1''\<rparr>),
      \<lparr>self = churn\<lparr>version := Some (VStr ''v1''), model_version_id := Some (UUID 7),
                     was_created_in_this_run := True, priv_model_id := Some (UUID 1),
                     priv_number := Some 1, priv_created_model_version := True\<rparr>,
       world = 3,
       trace =
         [Call (GetModel ''churn'') None,
          Call (GetModelVersion (Some ''churn'') (KeyVersion (Some (VStr ''v1''))) (Some True))
            (Some KeyError),
          Call (CreateModelVersion
                 \<lparr>vrq_user = UUID 100, vrq_workspace = UUID 200, vrq_name = Some ''v1'',
                  vrq_description = None, vrq_model = UUID 1, vrq_tags = None\<rparr>) None,
          Log INFO (CreatedNewModelVersion (Some (VStr ''v1'')) ''churn'')]\<rparr>)"
  by (simp add: example_defs)

text \<open>
  Claim C1, amended. The parent model is resolved, the version is formatted, the
  selector is present (truthy) and the fetch of the version raises \<open>KeyError\<close>. If the
  selector, lowered, is a stage value, or is numeric, the resolver fails with the
  \<open>RuntimeError\<close> for a reserved name, in the state the fetch left, and has made no call
  to create a version. If the selector is neither, and the maximum number of attempts
  is positive, the next thing the resolver does is call the store to create a version
  named by the selector, with the description and the tags of the reference.
\<close>

theorem reserved_selector_miss_fails:
  assumes gm: "get_or_create_model env s = (Inr model, s1)"
    and fm: "format_version env s1 = Inr s2"
    and sel: "truthy (version (self s2))"
    and miss: "get_model_version env True s2 = (Inl KeyError, s3)"
  shows "(lower (py_str (version (self s2))) \<in> set ModelStages_values
            \<or> isnumeric (py_str (version (self s2)))
          \<longrightarrow> get_or_create_model_version env hydrate s =
                (Inl (RuntimeError
                   (if lower (py_str (version (self s2))) \<in> set ModelStages_values
                    then ReservedStageName (py_str (version (self s2))) (name (self s))
                    else ReservedNumericName (py_str (version (self s2))) (name (self s)))),
                 s3)
            \<and> filter is_create_call (new_events s s3) = [])
     \<and> (lower (py_str (version (self s2))) \<notin> set ModelStages_values
            \<and> \<not> isnumeric (py_str (version (self s2)))
            \<and> 0 < MAX_RETRIES_FOR_VERSIONED_ENTITY_CREATION env
          \<longrightarrow> (\<exists>x t. new_events s3 (snd (get_or_create_model_version env hydrate s))
                  = Call (CreateModelVersion
                      \<lparr>vrq_user = active_user_id env, vrq_workspace = active_workspace_id env,
                       vrq_name = Some (py_str (version (self s2))),
                       vrq_description = description (self s), vrq_model = m_id model,
                       vrq_tags = tags (self s)\<rparr>) x # t))"
proof (intro conjI impI)
  note am = resolver_after_miss [OF gm fm sel miss]
  let ?rq = "model_version_request env model (self s2)"
  have rq: "?rq = \<lparr>vrq_user = active_user_id env, vrq_workspace = active_workspace_id env,
      vrq_name = Some (py_str (version (self s2))),
      vrq_description = description (self s), vrq_model = m_id model,
      vrq_tags = tags (self s)\<rparr>"
    using sel get_or_create_model_frame [OF gm] format_version_frame [OF fm]
    by (simp add: model_version_request_def)
  {
    assume rsv: "lower (py_str (version (self s2))) \<in> set ModelStages_values
            \<or> isnumeric (py_str (version (self s2)))"
    then have "truthy (version (self s3))
           \<and> lower (py_str (version (self s3))) \<in> set ModelStages_values
           \<or> isnumeric (py_str (version (self s3)))"
      using sel am(2) by simp
    from create_on_miss_reserved [OF this, of env ?rq] am(1,2,3) sel
    show "get_or_create_model_version env hydrate s =
                (Inl (RuntimeError
                   (if lower (py_str (version (self s2))) \<in> set ModelStages_values
                    then ReservedStageName (py_str (version (self s2))) (name (self s))
                    else ReservedNumericName (py_str (version (self s2))) (name (self s)))),
                 s3)"
      by simp
    from am(4) show "filter is_create_call (new_events s s3) = []"
      by (auto simp: new_events_def)
  }
  {
    assume free: "lower (py_str (version (self s2))) \<notin> set ModelStages_values
            \<and> \<not> isnumeric (py_str (version (self s2)))
            \<and> 0 < MAX_RETRIES_FOR_VERSIONED_ENTITY_CREATION env"
    obtain r4 s4 where com: "create_on_miss env ?rq s3 = (r4, s4)"
      by (cases "create_on_miss env ?rq s3")
    from free am(2) have
      "\<not> (truthy (version (self s3)) \<and> lower (py_str (version (self s3))) \<in> set ModelStages_values)"
      "\<not> isnumeric (py_str (version (self s3)))"
      "0 < MAX_RETRIES_FOR_VERSIONED_ENTITY_CREATION env"
      by simp_all
    from create_on_miss_first [OF com this] obtain x t where
      t: "trace s4 = trace s3 @ Call (CreateModelVersion ?rq) x # t"
      by blast
    have "trace (snd (get_or_create_model_version env hydrate s)) = trace s4"
      using am(1) com by (auto simp: cache_resolved_def split: sum.splits)
    with t have "new_events s3 (snd (get_or_create_model_version env hydrate s))
                  = Call (CreateModelVersion ?rq) x # t"
      by (simp add: new_events_def)
    then show "\<exists>x t. new_events s3 (snd (get_or_create_model_version env hydrate s))
                  = Call (CreateModelVersion
                      \<lparr>vrq_user = active_user_id env, vrq_workspace = active_workspace_id env,
                       vrq_name = Some (py_str (version (self s2))),
                       vrq_description = description (self s), vrq_model = m_id model,
                       vrq_tags = tags (self s)\<rparr>) x # t"
      unfolding rq by blast
  }
qed


theorem reserved_selector_miss_fails_witness:
  "get_or_create_model_version
     (scripted_env (\<lambda>w. Inr churn_model) (\<lambda>w. Inl EntityExistsError) (\<lambda>w. Inl KeyError)
        (\<lambda>w. Inr version_one) None 10)
     False (start (churn\<lparr>version := Some (VStr ''production'')\<rparr>))
   = (Inl (RuntimeError (ReservedStageName ''production'' ''churn'')),
      \<lparr>self = churn\<lparr>version := Some (VStr ''production''), priv_model_id := Some (UUID 1)\<rparr>,
       world = 2,
       trace =
         [Call (GetModel ''churn'') None,
          Call (GetModelVersion (Some ''churn'') (KeyVersion (Some (VStr ''production'')))
                  (Some True)) (Some KeyError)]\<rparr>)
   \<and> new_events
       \<lparr>self = churn\<lparr>version := Some (VStr ''v1''), priv_model_id := Some (UUID 1)\<rparr>,
        world = 2,
        trace =
          [Call (GetModel ''churn'') None,
           Call (GetModelVersion (Some ''churn'') (KeyVersion (Some (VStr ''v1''))) (Some True))
             (Some KeyError)]\<rparr>
       (snd (get_or_create_model_version
          (scripted_env (\<lambda>w. Inr churn_model) (\<lambda>w. Inl EntityExistsError) (\<lambda>w. Inl KeyError)
             (\<lambda>w. Inr version_one) None 10)
          False (start (churn\<lparr>version := Some (VStr ''v1'')\<rparr>))))
     = [Call (CreateModelVersion
               \<lparr>vrq_user = UUID 100, vrq_workspace = UUID 200, vrq_name = Some ''v1'',
                vrq_description = None, vrq_model = UUID 1, vrq_tags = None\<rparr>) None,
        Log INFO (CreatedNewModelVersion (Some (VStr ''1'')) ''churn'')]"
proof -
  let ?env = "scripted_env (\<lambda>w. Inr churn_model) (\<lambda>w. Inl EntityExistsError)
     (\<lambda>w. Inl KeyError) (\<lambda>w. Inr version_one) None 10"
  let ?s1 = "\<lambda>v. \<lparr>self = churn\<lparr>version := Some (VStr v), priv_model_id := Some (UUID 1)\<rparr>,
        world = 1, trace = [Call (GetModel ''churn'') None]\<rparr> :: nat state"
  let ?s3 = "\<lambda>v. \<lparr>self = churn\<lparr>version := Some (VStr v), priv_model_id := Some (UUID 1)\<rparr>,
        world = 2,
        trace =
          [Call (GetModel ''churn'') None,
           Call (GetModelVersion (Some ''churn'') (KeyVersion (Some (VStr v))) (Some True))
             (Some KeyError)]\<rparr> :: nat state"
  have gm: "get_or_create_model ?env (start (churn\<lparr>version := Some (VStr v)\<rparr>))
      = (Inr churn_model, ?s1 v)" for v
    by (simp add: example_defs)
  have fm: "format_version ?env (?s1 v) = Inr (?s1 v)" for v
    by (simp add: example_defs)
  have sel: "truthy (version (self (?s1 ''production'')))" "truthy (version (self (?s1 ''v1'')))"
    by (simp_all add: example_defs)
  have miss: "get_model_version ?env True (?s1 v) = (Inl KeyError, ?s3 v)" for v
    by (simp add: example_defs)
  have stage: "lower (py_str (version (self (?s1 ''production'')))) \<in> set ModelStages_values"
    by (simp add: example_defs)
  have free: "lower (py_str (version (self (?s1 ''v1'')))) \<notin> set ModelStages_values"
    "\<not> isnumeric (py_str (version (self (?s1 ''v1''))))"
    "0 < MAX_RETRIES_FOR_VERSIONED_ENTITY_CREATION ?env"
    by (simp_all add: example_defs)
  have eval: "new_events (?s3 ''v1'')
       (snd (get_or_create_model_version ?env False (start (churn\<lparr>version := Some (VStr ''v1'')\<rparr>))))
     = [Call (CreateModelVersion
               \<lparr>vrq_user = UUID 100, vrq_workspace = UUID 200, vrq_name = Some ''v1'',
                vrq_description = None, vrq_model = UUID 1, vrq_tags = None\<rparr>) None,
        Log INFO (CreatedNewModelVersion (Some (VStr ''1'')) ''churn'')]"
    by (simp add: example_defs)
  from reserved_selector_miss_fails [OF gm fm sel(1) miss, of False] stage
  have "get_or_create_model_version ?env False (start (churn\<lparr>version := Some (VStr ''production'')\<rparr>))
     = (Inl (RuntimeError (ReservedStageName ''production'' ''churn'')), ?s3 ''production'')"
    by (simp add: start_def churn_def)
  moreover from reserved_selector_miss_fails [OF gm fm sel(2) miss, of False] free
  have "\<exists>x t. new_events (?s3 ''v1'')
       (snd (get_or_create_model_version ?env False (start (churn\<lparr>version := Some (VStr ''v1'')\<rparr>))))
     = Call (CreateModelVersion
               \<lparr>vrq_user = UUID 100, vrq_workspace = UUID 200, vrq_name = Some ''v1'',
                vrq_description = None, vrq_model = UUID 1, vrq_tags = None\<rparr>) x # t"
    by (simp add: scripted_env_def start_def churn_def churn_model_def)
  ultimately show ?thesis using eval by simp
qed

subsection \<open>When a reserved name is refused\<close>

lemma get_or_create_model_first:
  assumes "get_or_create_model env s = (r, s1)"
  shows "\<exists>x t. trace s1 = trace s @
           Call (case model_version_id (self s) of
                   None \<Rightarrow> GetModel (name (self s))
                 | Some vid \<Rightarrow> GetModelVersion None (KeyId vid) None) x # t"
  using assms
  unfolding get_or_create_model_def store_call_def return_model_def logger_def
  by (auto split: option.splits prod.splits sum.splits if_splits)

lemma resolver_first:
  assumes "get_or_create_model_version env hydrate s = (r, s')"
  shows "\<exists>x t. new_events s s' =
           Call (case model_version_id (self s) of
                   None \<Rightarrow> GetModel (name (self s))
                 | Some vid \<Rightarrow> GetModelVersion None (KeyId vid) None) x # t"
proof -
  obtain r0 s1 where gm: "get_or_create_model env s = (r0, s1)"
    by (cases "get_or_create_model env s")
  let ?c = "case model_version_id (self s) of
                   None \<Rightarrow> GetModel (name (self s))
                 | Some vid \<Rightarrow> GetModelVersion None (KeyId vid) None"
  from get_or_create_model_first [OF gm] obtain x t0 where
    t0: "trace s1 = trace s @ Call ?c x # t0"
    by blast
  have "\<exists>u. trace s' = trace s1 @ u"
  proof (cases r0)
    case (Inl e)
    then have "trace s' = trace s1 @ []"
      using assms gm by (simp add: get_or_create_model_version_def)
    then show ?thesis by blast
  next
    case (Inr model)
    show ?thesis
    proof (cases "format_version env s1")
      case (Inl e)
      then have "trace s' = trace s1 @ []"
        using assms gm Inr by (simp add: get_or_create_model_version_def)
      then show ?thesis by blast
    next
      case fm: (Inr s2)
      obtain r3 s3 where fc:
        "fetch_or_create env (model_version_request env model (self s2)) s2 = (r3, s3)"
        by (cases "fetch_or_create env (model_version_request env model (self s2)) s2")
      from fetch_or_create_result [OF fc] obtain t3 where "trace s3 = trace s2 @ t3"
        by blast
      moreover have "trace s' = trace s3"
        using assms gm Inr fm fc
        by (auto simp: get_or_create_model_version_def cache_resolved_def split: sum.splits)
      ultimately have "trace s' = trace s1 @ t3"
        using format_version_frame [OF fm] by simp
      then show ?thesis by blast
    qed
  qed
  then obtain u where "trace s' = trace s1 @ u" by blast
  with t0 have "new_events s s' = Call ?c x # (t0 @ u)"
    by (simp add: new_events_def)
  then show ?thesis by blast
qed








subsection \<open>Reuse within a run\<close>





text \<open>
  Claim C6, as the spec has it, fails: the run's configurations are consulted only
  inside a step. Where \<open>get_step_context\<close> raises, two resolutions of \<open>churn\<close> with no
  version, one after the other, each create a version, and the two versions differ.
\<close>

theorem no_step_context_creates_twice_counterexample:
  "get_or_create_model_version
     (scripted_env (\<lambda>w. Inr churn_model) (\<lambda>w. Inl EntityExistsError) (\<lambda>w. Inl KeyError)
        (\<lambda>w. if w = 1 then Inr version_one
             else Inr (version_one\<lparr>mv_id := UUID 8, mv_name := Some ''2'', mv_number := 2\<rparr>))
        None 10)
     False (start churn)
   = (Inr version_one,
      \<lparr>self = churn\<lparr>version := Some (VStr ''1''), model_version_id := Some (UUID 7),
                     was_created_in_this_run := True, priv_model_id := Some (UUID 1),
                     priv_number := Some 1, priv_created_model_version := True\<rparr>,
       world = 2,
       trace =
         [Call (GetModel ''churn'') None,
          Call (CreateModelVersion
                 \<lparr>vrq_user = UUID 100, vrq_workspace = UUID 200, vrq_name = None,
                  vrq_description = None, vrq_model = UUID 1, vrq_tags = None\<rparr>) None,
          Log INFO (CreatedNewModelVersion (Some (VStr ''1'')) ''churn'')]\<rparr>)
   \<and> get_or_create_model_version
       (scripted_env (\<lambda>w. Inr churn_model) (\<lambda>w. Inl EntityExistsError) (\<lambda>w. Inl KeyError)
          (\<lambda>w. if w = 1 then Inr version_one
               else Inr (version_one\<lparr>mv_id := UUID 8, mv_name := Some ''2'', mv_number := 2\<rparr>))
          None 10)
       False \<lparr>self = churn, world = 2, trace = []\<rparr>
     = (Inr (version_one\<lparr>mv_id := UUID 8, mv_name := Some ''2'', mv_number := 2\<rparr>),
        \<lparr>self = churn\<lparr>version := Some (VStr ''2''), model_version_id := Some (UUID 8),
                       was_created_in_this_run := True, priv_model_id := Some (UUID 1),
                       priv_number := Some 2, priv_created_model_version := True\<rparr>,
         world = 4,
         trace =
           [Call (GetModel ''churn'') None,
            Call (CreateModelVersion
                   \<lparr>vrq_user = UUID 100, vrq_workspace = UUID 200, vrq_name = None,
                    vrq_description = None, vrq_model = UUID 1, vrq_tags = None\<rparr>) None,
            Log INFO (CreatedNewModelVersion (Some (VStr ''2'')) ''churn'')]\<rparr>)"
  by (simp add: example_defs)




end
